theory Spec2Isabelle
  imports Main "HOL-Library.Word"
begin

section \<open>The options builder\<close>

text \<open>
  The pass \<^verbatim>\<open>stablehlo_tfl_pass.cc\<close> turns every StableHLO operation of a function into a
  \<^verbatim>\<open>tfl.custom\<close> operation whose options are the operation's attributes, written through a
  \<^verbatim>\<open>flexbuffers::Builder\<close>. The builder is a library class that the pass only calls; it is
  modelled here as the stack machine its interface describes: every value that is added
  is pushed on a stack, \<^verbatim>\<open>StartVector\<close> and \<^verbatim>\<open>StartMap\<close> remember the height of the stack, and
  \<^verbatim>\<open>EndVector\<close> and \<^verbatim>\<open>EndMap\<close> replace what was pushed since by one vector or map.
\<close>

type_synonym int64 = "64 word"

text \<open>A \<^verbatim>\<open>double\<close> is carried as its IEEE-754 bit pattern; the pass never computes with one.\<close>

type_synonym double = "64 word"

text \<open>
  The two ways the pass can stop: a read through a null attribute, and a failed assertion
  of the builder (an unbalanced stack when a map is closed or the buffer is finished).
\<close>

datatype error =
    NullAttrDeref
  | BuilderAssert

datatype fvalue =
    FInt int64
  | FDouble double
  | FBool bool
  | FString string
  | FKey string
  | FVector bool "fvalue list"
  | FMap "(string \<times> fvalue) list"

datatype ftype = FBT_INT | FBT_FLOAT | FBT_BOOL | FBT_STRING | FBT_KEY | FBT_VECTOR | FBT_MAP

fun type_of :: "fvalue \<Rightarrow> ftype" where
  "type_of (FInt _) = FBT_INT"
| "type_of (FDouble _) = FBT_FLOAT"
| "type_of (FBool _) = FBT_BOOL"
| "type_of (FString _) = FBT_STRING"
| "type_of (FKey _) = FBT_KEY"
| "type_of (FVector _ _) = FBT_VECTOR"
| "type_of (FMap _) = FBT_MAP"

text \<open>
  Modelled from the spec: \<^verbatim>\<open>flexbuffers::Builder\<close> (flatbuffers' \<^verbatim>\<open>flexbuffers.h\<close>) is not
  under src/. The spec calls it a binary builder abstraction with started/ended typed
  and untyped vectors and a map whose insertion order is the encode order; a typed vector
  is a sequence whose elements share one primitive kind. The finished buffer is
  identified with the root value it decodes to; its byte layout is not modelled.
\<close>

record Builder =
  stack :: "fvalue list"
  finished :: bool

definition new_Builder :: Builder where
  "new_Builder = \<lparr>stack = [], finished = False\<rparr>"

definition push :: "fvalue \<Rightarrow> Builder \<Rightarrow> Builder" where
  "push v b = b\<lparr>stack := stack b @ [v]\<rparr>"

definition Key :: "string \<Rightarrow> Builder \<Rightarrow> Builder" where
  "Key k b = push (FKey k) b"

text \<open>The overloads of \<^verbatim>\<open>Add\<close>, one per argument type of the calls in the pass.\<close>

definition Add_int :: "int64 \<Rightarrow> Builder \<Rightarrow> Builder" where
  "Add_int i b = push (FInt i) b"

definition Add_double :: "double \<Rightarrow> Builder \<Rightarrow> Builder" where
  "Add_double d b = push (FDouble d) b"

definition Add_bool :: "bool \<Rightarrow> Builder \<Rightarrow> Builder" where
  "Add_bool x b = push (FBool x) b"

definition Add_string :: "string \<Rightarrow> Builder \<Rightarrow> Builder" where
  "Add_string s b = push (FString s) b"

text \<open>The keyed forms \<^verbatim>\<open>Int(key, i)\<close>, \<^verbatim>\<open>Double(key, d)\<close> and \<^verbatim>\<open>String(key, s)\<close>.\<close>

definition Int_key :: "string \<Rightarrow> int64 \<Rightarrow> Builder \<Rightarrow> Builder" where
  "Int_key k i b = push (FInt i) (Key k b)"

definition Double_key :: "string \<Rightarrow> double \<Rightarrow> Builder \<Rightarrow> Builder" where
  "Double_key k d b = push (FDouble d) (Key k b)"

definition String_key :: "string \<Rightarrow> string \<Rightarrow> Builder \<Rightarrow> Builder" where
  "String_key k s b = push (FString s) (Key k b)"

definition StartVector :: "Builder \<Rightarrow> nat" where
  "StartVector b = length (stack b)"

definition StartVector_key :: "string \<Rightarrow> Builder \<Rightarrow> nat \<times> Builder" where
  "StartVector_key k b = (let b' = Key k b in (length (stack b'), b'))"

definition IsTypedVectorElementType :: "ftype \<Rightarrow> bool" where
  "IsTypedVectorElementType t =
     (t = FBT_INT \<or> t = FBT_FLOAT \<or> t = FBT_KEY \<or> t = FBT_STRING \<or> t = FBT_BOOL)"

fun one_kind :: "fvalue list \<Rightarrow> bool" where
  "one_kind [] = True"
| "one_kind (e # es) =
     (IsTypedVectorElementType (type_of e) \<and> list_all (\<lambda>x. type_of x = type_of e) es)"

text \<open>
  Modelled from the spec: \<^verbatim>\<open>EndVector\<close> of \<^verbatim>\<open>flexbuffers.h\<close>. The values pushed since the start
  become one vector, typed or untyped; the elements of a typed vector share one primitive
  kind, which the builder asserts.
\<close>

definition EndVector :: "nat \<Rightarrow> bool \<Rightarrow> bool \<Rightarrow> Builder \<Rightarrow> error + Builder" where
  "EndVector start typed fixed b =
     (let elems = drop start (stack b) in
      if fixed \<and> \<not> typed then Inl BuilderAssert
      else if typed \<and> \<not> one_kind elems then Inl BuilderAssert
      else Inr (b\<lparr>stack := take start (stack b) @ [FVector typed elems]\<rparr>))"

definition StartMap :: "Builder \<Rightarrow> nat" where
  "StartMap b = length (stack b)"

text \<open>
  Modelled from the spec: \<^verbatim>\<open>EndMap\<close> of \<^verbatim>\<open>flexbuffers.h\<close>. The stack above the start of a map
  holds keys and values in turn, which the builder asserts; they become the entries of
  the map, in insertion order.
\<close>

fun map_entries :: "fvalue list \<Rightarrow> (string \<times> fvalue) list option" where
  "map_entries [] = Some []"
| "map_entries (FKey k # v # rest) =
     (case map_entries rest of None \<Rightarrow> None | Some kvs \<Rightarrow> Some ((k, v) # kvs))"
| "map_entries _ = None"

definition EndMap :: "nat \<Rightarrow> Builder \<Rightarrow> error + Builder" where
  "EndMap start b =
     (let elems = drop start (stack b) in
      if odd (length elems) then Inl BuilderAssert
      else (case map_entries elems of
              None \<Rightarrow> Inl BuilderAssert
            | Some kvs \<Rightarrow> Inr (b\<lparr>stack := take start (stack b) @ [FMap kvs]\<rparr>)))"

text \<open>
  Modelled from the spec: \<^verbatim>\<open>Finish\<close> and \<^verbatim>\<open>GetBuffer\<close> of \<^verbatim>\<open>flexbuffers.h\<close>. A buffer is
  finished from exactly one root value, and read once finished.
\<close>

definition Finish :: "Builder \<Rightarrow> error + Builder" where
  "Finish b = (if length (stack b) = 1 then Inr (b\<lparr>finished := True\<rparr>) else Inl BuilderAssert)"

definition GetBuffer :: "Builder \<Rightarrow> error + fvalue" where
  "GetBuffer b =
     (case stack b of
        [root] \<Rightarrow> if finished b then Inr root else Inl BuilderAssert
      | _ \<Rightarrow> Inl BuilderAssert)"

section \<open>Attributes and operations\<close>

text \<open>
  Modelled from the spec: the attribute classes of MLIR and StableHLO are declared in
  headers that are not under src/. An attribute value is the tagged union of the spec's
  data model; each variant carries what the accessor called by the pass returns
  (\<^verbatim>\<open>getInt()\<close>, \<^verbatim>\<open>getValueAsDouble()\<close>, \<^verbatim>\<open>asArrayRef()\<close>, the getters of the dimension numbers).
\<close>

datatype float_type = BF16 | F16 | F32 | F64 | F80 | F128

text \<open>
  The elements of an \<^verbatim>\<open>ElementsAttr\<close> with their element type: integers of a bit width (each
  element as \<^verbatim>\<open>getInt()\<close> returns it), floats of a format (each element as
  \<^verbatim>\<open>getValueAsDouble()\<close> returns it), or elements of another type (index, complex, string).
\<close>

datatype Elements =
    IntElements nat "int64 list"
  | FloatElements float_type "double list"
  | OtherElements

fun isInteger :: "Elements \<Rightarrow> nat \<Rightarrow> bool" where
  "isInteger (IntElements w _) width = (w = width)"
| "isInteger _ _ = False"

fun isF32 :: "Elements \<Rightarrow> bool" where
  "isF32 (FloatElements t _) = (t = F32)"
| "isF32 _ = False"

fun isF64 :: "Elements \<Rightarrow> bool" where
  "isF64 (FloatElements t _) = (t = F64)"
| "isF64 _ = False"

fun isF128 :: "Elements \<Rightarrow> bool" where
  "isF128 (FloatElements t _) = (t = F128)"
| "isF128 _ = False"

fun getValues_IntegerAttr :: "Elements \<Rightarrow> int64 list" where
  "getValues_IntegerAttr (IntElements _ xs) = xs"
| "getValues_IntegerAttr _ = []"

fun getValues_FloatAttr :: "Elements \<Rightarrow> double list" where
  "getValues_FloatAttr (FloatElements _ xs) = xs"
| "getValues_FloatAttr _ = []"

record ConvDimensionNumbers =
  InputBatchDimension :: int64
  InputFeatureDimension :: int64
  InputSpatialDimensions :: "int64 list"
  KernelInputFeatureDimension :: int64
  KernelOutputFeatureDimension :: int64
  KernelSpatialDimensions :: "int64 list"
  OutputBatchDimension :: int64
  OutputFeatureDimension :: int64
  OutputSpatialDimensions :: "int64 list"

record GatherDimensionNumbers =
  OffsetDims :: "int64 list"
  CollapsedSliceDims :: "int64 list"
  StartIndexMap :: "int64 list"
  GatherIndexVectorDim :: int64

record ScatterDimensionNumbers =
  UpdateWindowDims :: "int64 list"
  InsertedWindowDims :: "int64 list"
  ScatterDimsToOperandDims :: "int64 list"
  ScatterIndexVectorDim :: int64

record DotDimensionNumbers =
  LhsBatchingDimensions :: "int64 list"
  RhsBatchingDimensions :: "int64 list"
  LhsContractingDimensions :: "int64 list"
  RhsContractingDimensions :: "int64 list"

text \<open>
  Modelled from the spec: the enumerated tags (precision, comparison direction, comparison
  type) are enumerations of StableHLO, declared in headers that are not under src/. What
  \<^verbatim>\<open>stringifyPrecision\<close>, \<^verbatim>\<open>stringifyComparisonDirection\<close> and \<^verbatim>\<open>stringifyComparisonType\<close> return
  for an enumerator is decided there too: the three functions are parameters of the
  encoder.
\<close>

datatype Precision = DEFAULT | HIGH | HIGHEST

datatype ComparisonDirection = EQ | NE | GE | GT | LE | LT

datatype ComparisonType = NOTYPE | FLOAT | TOTALORDER | SIGNED | UNSIGNED

record stablehlo_enums =
  stringifyPrecision :: "Precision \<Rightarrow> string"
  stringifyComparisonDirection :: "ComparisonDirection \<Rightarrow> string"
  stringifyComparisonType :: "ComparisonType \<Rightarrow> string"

datatype Attribute =
    IntegerAttr int64
  | FloatAttr double
  | ElementsAttr Elements
  | DenseI64ArrayAttr "int64 list"
  | DenseBoolArrayAttr "bool list"
  | StringAttr string
  | ArrayAttr "Attribute list"
  | ConvDimensionNumbersAttr ConvDimensionNumbers
  | GatherDimensionNumbersAttr GatherDimensionNumbers
  | ScatterDimensionNumbersAttr ScatterDimensionNumbers
  | DotDimensionNumbersAttr DotDimensionNumbers
  | ComparisonDirectionAttr ComparisonDirection
  | ComparisonTypeAttr ComparisonType
  | PrecisionAttr Precision
  | DictionaryAttr "(string \<times> Attribute) list"
  | SymbolRefAttr string
  | UnitAttr
  | ConstBytesAttr fvalue

type_synonym NamedAttribute = "string \<times> Attribute"

text \<open>
  Modelled from the spec: the operation class of MLIR is not under src/. A node has a
  dialect tag, a dialect-qualified name, an attribute dictionary, an ordered list of
  operand references, an ordered list of result types and a location. \<open>op_id\<close> stands for
  the identity of the operation (its address), by which a use refers to a result.
  \<open>op_composite\<close> is what \<^verbatim>\<open>dyn_cast<stablehlo::CompositeOp>\<close> gives: for a composite, its
  inner name (\<^verbatim>\<open>getName()\<close>) and its nested dictionary (\<^verbatim>\<open>getCompositeAttributes()\<close>).
\<close>

type_synonym Location = string

type_synonym Type = string

datatype Value =
    OpResult nat nat
  | BlockArgument nat

record CompositeOp =
  composite_name :: string
  composite_attributes :: "NamedAttribute list"

record Operation =
  op_id :: nat
  op_dialect :: string
  op_name :: string
  op_attrs :: "NamedAttribute list"
  op_operands :: "Value list"
  op_result_types :: "Type list"
  op_loc :: Location
  op_composite :: "CompositeOp option"

datatype diagnostic = Warning Location string

definition emitWarning :: "Location \<Rightarrow> string \<Rightarrow> diagnostic list \<Rightarrow> diagnostic list" where
  "emitWarning l msg ds = ds @ [Warning l msg]"

datatype LogicalResult = success | failure

section \<open>The attribute encoder\<close>

text \<open>The state of an encode call: the builder and the diagnostics emitted so far.\<close>

type_synonym encoder = "Builder \<times> diagnostic list"

text \<open>
  A string handed over as \<^verbatim>\<open>const char*\<close> ends at its first NUL byte: \<^verbatim>\<open>data()\<close> gives the
  pointer without the length, and the builder and the diagnostic measure it again. This
  is so for the key of every attribute (line 82), for the value of a string attribute
  (line 140) and for the elements of a list (lines 155 to 162).
\<close>

definition c_str :: "string \<Rightarrow> string" where
  "c_str s = takeWhile (\<lambda>c. c \<noteq> CHR 0x00) s"

definition AddIntegerArray :: "int64 list \<Rightarrow> Builder \<Rightarrow> error + Builder" where
  "AddIntegerArray vec fbb =
     (let start_input_dim = StartVector fbb in
      EndVector start_input_dim False False (fold Add_int vec fbb))"

text \<open>
  The loop over the elements of an \<^verbatim>\<open>ArrayAttr\<close>. An element that is neither a
  \<^verbatim>\<open>PrecisionAttr\<close> nor a \<^verbatim>\<open>StringAttr\<close> makes \<^verbatim>\<open>dyn_cast_or_null<StringAttr>\<close> return the null
  attribute, and \<^verbatim>\<open>data()\<close> reads through its null pointer.
\<close>

fun add_array_elements :: "stablehlo_enums \<Rightarrow> Attribute list \<Rightarrow> Builder \<Rightarrow> error + Builder" where
  "add_array_elements E [] fbb = Inr fbb"
| "add_array_elements E (v # vs) fbb =
     (case v of
        PrecisionAttr p \<Rightarrow>
          add_array_elements E vs (Add_string (c_str (stringifyPrecision E p)) fbb)
      | StringAttr s \<Rightarrow> add_array_elements E vs (Add_string (c_str s) fbb)
      | _ \<Rightarrow> Inl NullAttrDeref)"

fun isa_StringAttr :: "Attribute \<Rightarrow> bool" where
  "isa_StringAttr (StringAttr _) = True"
| "isa_StringAttr _ = False"

fun isa_PrecisionAttr :: "Attribute \<Rightarrow> bool" where
  "isa_PrecisionAttr (PrecisionAttr _) = True"
| "isa_PrecisionAttr _ = False"

text \<open>Calls in a row: the first failure is the result.\<close>

definition and_then :: "error + 'a \<Rightarrow> ('a \<Rightarrow> error + 'b) \<Rightarrow> error + 'b" where
  "and_then r f = (case r of Inl e \<Rightarrow> Inl e | Inr x \<Rightarrow> f x)"

definition BuildOption ::
  "stablehlo_enums \<Rightarrow> Operation \<Rightarrow> NamedAttribute \<Rightarrow> encoder \<Rightarrow> error + (LogicalResult \<times> encoder)"
where
  "BuildOption E op pair enc =
     (let key = c_str (fst pair); attr = snd pair; fbb = fst enc; ds = snd enc in
      case attr of
        IntegerAttr i \<Rightarrow> Inr (success, Int_key key i fbb, ds)
      | FloatAttr d \<Rightarrow> Inr (success, Double_key key d fbb, ds)
      | ElementsAttr array_attr \<Rightarrow>
          (let (start, fbb1) = StartVector_key key fbb;
               (fbb2, ds2) =
                 (if isInteger array_attr 16 \<or> isInteger array_attr 32 \<or> isInteger array_attr 64 \<or>
                     isInteger array_attr 128 \<or> isInteger array_attr 1
                  then (fold Add_int (getValues_IntegerAttr array_attr) fbb1, ds)
                  else if isF32 array_attr \<or> isF64 array_attr \<or> isF128 array_attr
                  then (fold Add_double (getValues_FloatAttr array_attr) fbb1, ds)
                  else (fbb1, emitWarning (op_loc op)
                          (''serialization of ElementsAttr for '' @ key @
                           '' only supports Integer and Float.'') ds))
           in and_then (EndVector start True False fbb2) (\<lambda>fbb3. Inr (success, fbb3, ds2)))
      | DenseI64ArrayAttr xs \<Rightarrow>
          (let (start, fbb1) = StartVector_key key fbb in
           and_then (EndVector start True False (fold Add_int xs fbb1))
             (\<lambda>fbb2. Inr (success, fbb2, ds)))
      | DenseBoolArrayAttr xs \<Rightarrow>
          (let (start, fbb1) = StartVector_key key fbb in
           and_then (EndVector start True False (fold Add_bool xs fbb1))
             (\<lambda>fbb2. Inr (success, fbb2, ds)))
      | StringAttr s \<Rightarrow> Inr (success, String_key key (c_str s) fbb, ds)
      | ArrayAttr array_attr \<Rightarrow>
          (let (start, fbb1) = StartVector_key key fbb in
           if length array_attr > 1 \<and> \<not> isa_StringAttr (array_attr ! 0) \<and>
              \<not> isa_PrecisionAttr (array_attr ! 0)
           then Inr (success, fbb1,
                     emitWarning (op_loc op)
                       (''serialization of ArrayAttr for '' @ key @ '' only supports Strings.'') ds)
           else and_then (add_array_elements E array_attr fbb1) (\<lambda>fbb2.
                and_then (EndVector start True False fbb2) (\<lambda>fbb3. Inr (success, fbb3, ds))))
      | ConvDimensionNumbersAttr d \<Rightarrow>
          (let (start, fbb1) = StartVector_key key fbb;
               fbb2 = Add_int (InputBatchDimension d) fbb1;
               fbb3 = Add_int (InputFeatureDimension d) fbb2 in
           and_then (AddIntegerArray (InputSpatialDimensions d) fbb3) (\<lambda>fbb4.
           let fbb5 = Add_int (KernelInputFeatureDimension d) fbb4;
               fbb6 = Add_int (KernelOutputFeatureDimension d) fbb5 in
           and_then (AddIntegerArray (KernelSpatialDimensions d) fbb6) (\<lambda>fbb7.
           let fbb8 = Add_int (OutputBatchDimension d) fbb7;
               fbb9 = Add_int (OutputFeatureDimension d) fbb8 in
           and_then (AddIntegerArray (OutputSpatialDimensions d) fbb9) (\<lambda>fbb10.
           and_then (EndVector start False False fbb10) (\<lambda>fbb11. Inr (success, fbb11, ds))))))
      | GatherDimensionNumbersAttr d \<Rightarrow>
          (let (start, fbb1) = StartVector_key key fbb in
           and_then (AddIntegerArray (OffsetDims d) fbb1) (\<lambda>fbb2.
           and_then (AddIntegerArray (CollapsedSliceDims d) fbb2) (\<lambda>fbb3.
           and_then (AddIntegerArray (StartIndexMap d) fbb3) (\<lambda>fbb4.
           and_then (EndVector start False False (Add_int (GatherIndexVectorDim d) fbb4))
             (\<lambda>fbb5. Inr (success, fbb5, ds))))))
      | ScatterDimensionNumbersAttr d \<Rightarrow>
          (let (start, fbb1) = StartVector_key key fbb in
           and_then (AddIntegerArray (UpdateWindowDims d) fbb1) (\<lambda>fbb2.
           and_then (AddIntegerArray (InsertedWindowDims d) fbb2) (\<lambda>fbb3.
           and_then (AddIntegerArray (ScatterDimsToOperandDims d) fbb3) (\<lambda>fbb4.
           and_then (EndVector start False False (Add_int (ScatterIndexVectorDim d) fbb4))
             (\<lambda>fbb5. Inr (success, fbb5, ds))))))
      | DotDimensionNumbersAttr d \<Rightarrow>
          (let (start, fbb1) = StartVector_key key fbb in
           and_then (AddIntegerArray (LhsBatchingDimensions d) fbb1) (\<lambda>fbb2.
           and_then (AddIntegerArray (RhsBatchingDimensions d) fbb2) (\<lambda>fbb3.
           and_then (AddIntegerArray (LhsContractingDimensions d) fbb3) (\<lambda>fbb4.
           and_then (AddIntegerArray (RhsContractingDimensions d) fbb4) (\<lambda>fbb5.
           and_then (EndVector start False False fbb5) (\<lambda>fbb6. Inr (success, fbb6, ds)))))))
      | ComparisonDirectionAttr c \<Rightarrow>
          Inr (success, String_key key (stringifyComparisonDirection E c) fbb, ds)
      | ComparisonTypeAttr c \<Rightarrow>
          Inr (success, String_key key (stringifyComparisonType E c) fbb, ds)
      | _ \<Rightarrow>
          Inr (failure, fbb,
               emitWarning (op_loc op) (''serialization not supported for : '' @ key) ds))"

section \<open>The legalization pass\<close>

definition supported_composites :: "string list" where
  "supported_composites = [''odml.update_kv_cache'', ''odml.scaled_dot_product_attention'']"

definition IsSupportedComposite ::
  "Location \<Rightarrow> CompositeOp \<Rightarrow> diagnostic list \<Rightarrow> bool \<times> diagnostic list" where
  "IsSupportedComposite l c ds =
     (if composite_name c \<in> set supported_composites then (True, ds)
      else (False, emitWarning l (''composite has no specializaiton '' @ composite_name c) ds))"

text \<open>
  The name and the attributes of the custom operation (lines 265 to 276 of the pass).
  \<^verbatim>\<open>IsSupportedComposite\<close> is called, and can warn, only for a composite.
\<close>

definition custom_name_and_options ::
  "Operation \<Rightarrow> diagnostic list \<Rightarrow> string \<times> NamedAttribute list \<times> diagnostic list" where
  "custom_name_and_options op ds =
     (case op_composite op of
        None \<Rightarrow> (op_name op, op_attrs op, ds)
      | Some composite \<Rightarrow>
          (let (supported, ds1) = IsSupportedComposite (op_loc op) composite ds in
           if supported then (composite_name composite, composite_attributes composite, ds1)
           else (op_name op, op_attrs op, ds1)))"

text \<open>The loop over the options: the result of \<^verbatim>\<open>BuildOption\<close> is dropped.\<close>

fun BuildOptions ::
  "stablehlo_enums \<Rightarrow> Operation \<Rightarrow> NamedAttribute list \<Rightarrow> encoder \<Rightarrow> error + encoder" where
  "BuildOptions E op [] enc = Inr enc"
| "BuildOptions E op (pair # options) enc =
     (case BuildOption E op pair enc of
        Inl e \<Rightarrow> Inl e
      | Inr (_, enc1) \<Rightarrow> BuildOptions E op options enc1)"

text \<open>Lines 279 to 289: the options of one operation, from a fresh builder to the buffer.\<close>

definition custom_option_buffer ::
  "stablehlo_enums \<Rightarrow> Operation \<Rightarrow> NamedAttribute list \<Rightarrow> diagnostic list \<Rightarrow>
   error + (fvalue \<times> diagnostic list)" where
  "custom_option_buffer E op options ds =
     (let fbb = new_Builder; map_start = StartMap fbb in
      and_then (BuildOptions E op options (fbb, ds)) (\<lambda>(fbb1, ds1).
      and_then (EndMap map_start fbb1) (\<lambda>fbb2.
      and_then (Finish fbb2) (\<lambda>fbb3.
      and_then (GetBuffer fbb3) (\<lambda>buffer. Inr (buffer, ds1))))))"

text \<open>
  Modelled from the spec: \<^verbatim>\<open>TFL::CustomOp\<close> and \<^verbatim>\<open>TFL::ConstBytesAttr\<close> are declared in
  \<^verbatim>\<open>tfl_ops.h\<close>, which is not under src/. The opaque node is built from a location, result
  types, an operand list, a name and a binary payload; the name and the payload are its
  attributes \<^verbatim>\<open>custom_code\<close> and \<^verbatim>\<open>custom_option\<close>. \<open>new_id\<close> is the identity of the new
  operation.
\<close>

definition CustomOption :: "fvalue \<Rightarrow> Attribute" where
  "CustomOption content = ConstBytesAttr content"

definition create_CustomOp ::
  "nat \<Rightarrow> Location \<Rightarrow> Type list \<Rightarrow> Value list \<Rightarrow> string \<Rightarrow> Attribute \<Rightarrow> Operation" where
  "create_CustomOp new_id l tys args custom_code custom_option =
     \<lparr>op_id = new_id, op_dialect = ''tfl'', op_name = ''tfl.custom'',
      op_attrs = [(''custom_code'', StringAttr custom_code), (''custom_option'', custom_option)],
      op_operands = args, op_result_types = tys, op_loc = l, op_composite = None\<rparr>"

text \<open>
  Modelled from the spec: the graph of MLIR is not under src/. A unit is the sequence of
  its operations in the order of the walk (operations nested in regions are not
  modelled), the diagnostics emitted so far, and the identity the next created operation
  gets. Inserting before an operation, replacing the uses of its results by the results
  of another operation at the same index, and erasing it, are the three steps of the
  rewrite.
\<close>

record unit_state =
  body :: "Operation list"
  diagnostics :: "diagnostic list"
  next_id :: nat

definition insert_before :: "nat \<Rightarrow> Operation \<Rightarrow> Operation list \<Rightarrow> Operation list" where
  "insert_before i new ops = take i ops @ new # drop i ops"

fun replace_use :: "nat \<Rightarrow> nat \<Rightarrow> Value \<Rightarrow> Value" where
  "replace_use old new (OpResult p k) = (if p = old then OpResult new k else OpResult p k)"
| "replace_use old new (BlockArgument n) = BlockArgument n"

definition replaceAllUsesWith :: "nat \<Rightarrow> nat \<Rightarrow> Operation list \<Rightarrow> Operation list" where
  "replaceAllUsesWith old new ops =
     map (\<lambda>user. user\<lparr>op_operands := map (replace_use old new) (op_operands user)\<rparr>) ops"

definition erase :: "nat \<Rightarrow> Operation list \<Rightarrow> Operation list" where
  "erase i ops = take i ops @ drop (Suc i) ops"

text \<open>The body of the walk's callback, for the operation at position \<open>i\<close>.\<close>

definition legalize_op :: "stablehlo_enums \<Rightarrow> nat \<Rightarrow> unit_state \<Rightarrow> error + unit_state" where
  "legalize_op E i st =
     (let op = body st ! i in
      if op_dialect op \<noteq> ''stablehlo'' then Inr st
      else
        (let (custom_op_name, options, ds) = custom_name_and_options op (diagnostics st) in
         and_then (custom_option_buffer E op options ds) (\<lambda>(buffer, ds1).
         let tfl_custom_op =
               create_CustomOp (next_id st) (op_loc op) (op_result_types op) (op_operands op)
                 custom_op_name (CustomOption buffer);
             ops1 = insert_before i tfl_custom_op (body st);
             ops2 = replaceAllUsesWith (op_id op) (op_id tfl_custom_op) ops1;
             ops3 = erase (Suc i) ops2
         in Inr \<lparr>body = ops3, diagnostics = ds1, next_id = Suc (next_id st)\<rparr>)))"

text \<open>
  The walk visits the operations that are in the function when it starts, each once: the
  replacement takes the position of the operation it replaces, so the positions of the
  operations still to visit do not move.
\<close>

fun walk :: "stablehlo_enums \<Rightarrow> nat list \<Rightarrow> unit_state \<Rightarrow> error + unit_state" where
  "walk E [] st = Inr st"
| "walk E (i # rest) st =
     (case legalize_op E i st of Inl e \<Rightarrow> Inl e | Inr st1 \<Rightarrow> walk E rest st1)"

definition runOnOperation :: "stablehlo_enums \<Rightarrow> unit_state \<Rightarrow> error + unit_state" where
  "runOnOperation E fn = walk E [0..<length (body fn)] fn"

section \<open>Concrete inputs\<close>

text \<open>
  The names StableHLO prints for its enumerators, and an operation to take a location
  from, for the evaluations below.
\<close>

definition example_enums :: stablehlo_enums where
  "example_enums =
     \<lparr>stringifyPrecision =
        (\<lambda>p. case p of DEFAULT \<Rightarrow> ''DEFAULT'' | HIGH \<Rightarrow> ''HIGH'' | HIGHEST \<Rightarrow> ''HIGHEST''),
      stringifyComparisonDirection =
        (\<lambda>c. case c of EQ \<Rightarrow> ''EQ'' | NE \<Rightarrow> ''NE'' | GE \<Rightarrow> ''GE'' | GT \<Rightarrow> ''GT''
                | LE \<Rightarrow> ''LE'' | LT \<Rightarrow> ''LT''),
      stringifyComparisonType =
        (\<lambda>c. case c of NOTYPE \<Rightarrow> ''NOTYPE'' | FLOAT \<Rightarrow> ''FLOAT'' | TOTALORDER \<Rightarrow> ''TOTALORDER''
                | SIGNED \<Rightarrow> ''SIGNED'' | UNSIGNED \<Rightarrow> ''UNSIGNED'')\<rparr>"

definition example_op :: Operation where
  "example_op =
     \<lparr>op_id = 0, op_dialect = ''stablehlo'', op_name = ''stablehlo.custom_call'',
      op_attrs = [], op_operands = [BlockArgument 0], op_result_types = [''tensor<2xf32>''],
      op_loc = ''loc0'', op_composite = None\<rparr>"

text \<open>A constant, a StableHLO addition that uses it, and a return of the sum.\<close>

definition example_unit :: unit_state where
  "example_unit =
     \<lparr>body =
        [\<lparr>op_id = 0, op_dialect = ''arith'', op_name = ''arith.constant'', op_attrs = [],
          op_operands = [], op_result_types = [''tensor<2xf32>''], op_loc = ''loc0'',
          op_composite = None\<rparr>,
         \<lparr>op_id = 1, op_dialect = ''stablehlo'', op_name = ''stablehlo.add'',
          op_attrs = [(''axis'', IntegerAttr 1), (''scale'', FloatAttr 0x4004000000000000)],
          op_operands = [OpResult 0 0, BlockArgument 0], op_result_types = [''tensor<2xf32>''],
          op_loc = ''loc1'', op_composite = None\<rparr>,
         \<lparr>op_id = 2, op_dialect = ''func'', op_name = ''func.return'', op_attrs = [],
          op_operands = [OpResult 1 0], op_result_types = [], op_loc = ''loc2'',
          op_composite = None\<rparr>],
      diagnostics = [], next_id = 3\<rparr>"

text \<open>
  A unit without StableHLO operations, a unit of one composite with a given inner name,
  and a unit of one StableHLO operation without attributes.
\<close>

definition example_plain_unit :: unit_state where
  "example_plain_unit =
     \<lparr>body =
        [\<lparr>op_id = 0, op_dialect = ''arith'', op_name = ''arith.constant'', op_attrs = [],
          op_operands = [], op_result_types = [''tensor<2xf32>''], op_loc = ''loc0'',
          op_composite = None\<rparr>,
         \<lparr>op_id = 1, op_dialect = ''func'', op_name = ''func.return'', op_attrs = [],
          op_operands = [OpResult 0 0], op_result_types = [], op_loc = ''loc1'',
          op_composite = None\<rparr>],
      diagnostics = [], next_id = 2\<rparr>"

definition example_composite_unit :: "string \<Rightarrow> unit_state" where
  "example_composite_unit inner =
     \<lparr>body =
        [\<lparr>op_id = 0, op_dialect = ''stablehlo'', op_name = ''stablehlo.composite'',
          op_attrs =
            [(''composite_attributes'', DictionaryAttr [(''kv_cache_max'', IntegerAttr 500)]),
             (''decomposition'', SymbolRefAttr ''impl''),
             (''name'', StringAttr inner)],
          op_operands = [BlockArgument 0], op_result_types = [''tensor<2xf32>''],
          op_loc = ''loc0'',
          op_composite =
            Some \<lparr>composite_name = inner,
                  composite_attributes = [(''kv_cache_max'', IntegerAttr 500)]\<rparr>\<rparr>],
      diagnostics = [], next_id = 1\<rparr>"

text \<open>A custom call with one called computation, and a return of its result.\<close>

definition example_custom_call_unit :: unit_state where
  "example_custom_call_unit =
     \<lparr>body =
        [\<lparr>op_id = 0, op_dialect = ''stablehlo'', op_name = ''stablehlo.custom_call'',
          op_attrs =
            [(''call_target_name'', StringAttr ''foo''),
             (''called_computations'', ArrayAttr [SymbolRefAttr ''f''])],
          op_operands = [BlockArgument 0], op_result_types = [''tensor<2xf32>''],
          op_loc = ''loc0'', op_composite = None\<rparr>,
         \<lparr>op_id = 1, op_dialect = ''func'', op_name = ''func.return'', op_attrs = [],
          op_operands = [OpResult 0 0], op_result_types = [], op_loc = ''loc1'',
          op_composite = None\<rparr>],
      diagnostics = [], next_id = 2\<rparr>"


section \<open>What the encoder produces\<close>

text \<open>
  The result of one encode call, written out as a function of the attribute: the value
  bound to the key (nothing for a kind that reaches the last branch) and the warnings.
  \<open>BuildOption\<close> is proved equal to it on every attribute that is not a list holding an
  element that is neither a string nor a precision tag.
\<close>

definition int_like :: "nat \<Rightarrow> bool" where
  "int_like w = (w = 16 \<or> w = 32 \<or> w = 64 \<or> w = 128 \<or> w = 1)"

definition float_like :: "float_type \<Rightarrow> bool" where
  "float_like t = (t = F32 \<or> t = F64 \<or> t = F128)"

fun elements_values :: "Elements \<Rightarrow> fvalue list" where
  "elements_values (IntElements w xs) = (if int_like w then map FInt xs else [])"
| "elements_values (FloatElements t ys) = (if float_like t then map FDouble ys else [])"
| "elements_values OtherElements = []"

fun elements_supported :: "Elements \<Rightarrow> bool" where
  "elements_supported (IntElements w xs) = int_like w"
| "elements_supported (FloatElements t ys) = float_like t"
| "elements_supported OtherElements = False"

fun element_string :: "stablehlo_enums \<Rightarrow> Attribute \<Rightarrow> string" where
  "element_string E (PrecisionAttr p) = c_str (stringifyPrecision E p)"
| "element_string E (StringAttr s) = c_str s"
| "element_string E _ = []"

definition integer_array :: "int64 list \<Rightarrow> fvalue" where
  "integer_array vec = FVector False (map FInt vec)"

fun encoded_value :: "stablehlo_enums \<Rightarrow> Attribute \<Rightarrow> fvalue option" where
  "encoded_value E (IntegerAttr i) = Some (FInt i)"
| "encoded_value E (FloatAttr d) = Some (FDouble d)"
| "encoded_value E (ElementsAttr e) = Some (FVector True (elements_values e))"
| "encoded_value E (DenseI64ArrayAttr xs) = Some (FVector True (map FInt xs))"
| "encoded_value E (DenseBoolArrayAttr xs) = Some (FVector True (map FBool xs))"
| "encoded_value E (StringAttr s) = Some (FString (c_str s))"
| "encoded_value E (ArrayAttr xs) = Some (FVector True (map (\<lambda>a. FString (element_string E a)) xs))"
| "encoded_value E (ConvDimensionNumbersAttr d) =
     Some (FVector False
       [FInt (InputBatchDimension d), FInt (InputFeatureDimension d),
        integer_array (InputSpatialDimensions d),
        FInt (KernelInputFeatureDimension d), FInt (KernelOutputFeatureDimension d),
        integer_array (KernelSpatialDimensions d),
        FInt (OutputBatchDimension d), FInt (OutputFeatureDimension d),
        integer_array (OutputSpatialDimensions d)])"
| "encoded_value E (GatherDimensionNumbersAttr d) =
     Some (FVector False
       [integer_array (OffsetDims d), integer_array (CollapsedSliceDims d),
        integer_array (StartIndexMap d), FInt (GatherIndexVectorDim d)])"
| "encoded_value E (ScatterDimensionNumbersAttr d) =
     Some (FVector False
       [integer_array (UpdateWindowDims d), integer_array (InsertedWindowDims d),
        integer_array (ScatterDimsToOperandDims d), FInt (ScatterIndexVectorDim d)])"
| "encoded_value E (DotDimensionNumbersAttr d) =
     Some (FVector False
       [integer_array (LhsBatchingDimensions d), integer_array (RhsBatchingDimensions d),
        integer_array (LhsContractingDimensions d), integer_array (RhsContractingDimensions d)])"
| "encoded_value E (ComparisonDirectionAttr c) = Some (FString (stringifyComparisonDirection E c))"
| "encoded_value E (ComparisonTypeAttr c) = Some (FString (stringifyComparisonType E c))"
| "encoded_value E _ = None"

text \<open>The kinds that reach the last branch of \<open>BuildOption\<close>.\<close>

fun unsupported_kind :: "Attribute \<Rightarrow> bool" where
  "unsupported_kind (PrecisionAttr _) = True"
| "unsupported_kind (DictionaryAttr _) = True"
| "unsupported_kind (SymbolRefAttr _) = True"
| "unsupported_kind UnitAttr = True"
| "unsupported_kind (ConstBytesAttr _) = True"
| "unsupported_kind _ = False"

fun encoder_warnings :: "Operation \<Rightarrow> NamedAttribute \<Rightarrow> diagnostic list" where
  "encoder_warnings op (key, ElementsAttr e) =
     (if elements_supported e then []
      else [Warning (op_loc op)
              (''serialization of ElementsAttr for '' @ c_str key @
               '' only supports Integer and Float.'')])"
| "encoder_warnings op (key, a) =
     (if unsupported_kind a
      then [Warning (op_loc op) (''serialization not supported for : '' @ c_str key)]
      else [])"

definition encoded_entry :: "stablehlo_enums \<Rightarrow> NamedAttribute \<Rightarrow> fvalue list" where
  "encoded_entry E pair =
     (case encoded_value E (snd pair) of None \<Rightarrow> [] | Some v \<Rightarrow> [FKey (c_str (fst pair)), v])"

definition encoded_map :: "stablehlo_enums \<Rightarrow> NamedAttribute list \<Rightarrow> (string \<times> fvalue) list" where
  "encoded_map E options =
     List.map_filter
       (\<lambda>pair. map_option (Pair (c_str (fst pair))) (encoded_value E (snd pair))) options"

text \<open>
  The lists the encoder stringifies: every element is a string or a precision tag. The
  other attributes are under no condition.
\<close>

fun stringifiable :: "Attribute \<Rightarrow> bool" where
  "stringifiable (ArrayAttr xs) = list_all (\<lambda>a. isa_StringAttr a \<or> isa_PrecisionAttr a) xs"
| "stringifiable _ = True"

section \<open>Well-formed units\<close>

text \<open>
  The operations of a function have identities of their own, the next created operation
  gets an identity that none of them has, no operation uses a result of its own, and
  every operand that is a result is a result of an operation that exists.
\<close>

fun uses_result_of :: "nat \<Rightarrow> Value \<Rightarrow> bool" where
  "uses_result_of p (OpResult q k) = (q = p)"
| "uses_result_of p (BlockArgument n) = False"

fun created_before :: "nat \<Rightarrow> Value \<Rightarrow> bool" where
  "created_before n (OpResult q k) = (q < n)"
| "created_before n (BlockArgument m) = True"

definition wf_unit :: "unit_state \<Rightarrow> bool" where
  "wf_unit st =
     (distinct (map op_id (body st)) \<and>
      list_all (\<lambda>op. op_id op < next_id st) (body st) \<and>
      list_all (\<lambda>op. \<not> list_ex (uses_result_of (op_id op)) (op_operands op)) (body st) \<and>
      list_all (\<lambda>op. list_all (created_before (next_id st)) (op_operands op)) (body st))"

text \<open>
  The operations whose attributes the encoder can stringify: the operation's own
  attributes and, for a composite, its nested dictionary.
\<close>

definition encodable_op :: "Operation \<Rightarrow> bool" where
  "encodable_op op =
     (list_all (\<lambda>pair. stringifiable (snd pair)) (op_attrs op) \<and>
      (case op_composite op of
         None \<Rightarrow> True
       | Some c \<Rightarrow> list_all (\<lambda>pair. stringifiable (snd pair)) (composite_attributes c)))"

section \<open>The builder calls of the encoder\<close>

lemma c_str_Nil [simp]: "c_str [] = []"
  by (simp add: c_str_def)

lemma c_str_Cons [simp]: "c_str (c # s) = (if c = CHR 0x00 then [] else c # c_str s)"
  by (simp add: c_str_def)

lemma fold_Add_int: "fold Add_int xs b = b\<lparr>stack := stack b @ map FInt xs\<rparr>"
  by (induction xs arbitrary: b) (simp_all add: Add_int_def push_def)

lemma fold_Add_double: "fold Add_double xs b = b\<lparr>stack := stack b @ map FDouble xs\<rparr>"
  by (induction xs arbitrary: b) (simp_all add: Add_double_def push_def)

lemma fold_Add_bool: "fold Add_bool xs b = b\<lparr>stack := stack b @ map FBool xs\<rparr>"
  by (induction xs arbitrary: b) (simp_all add: Add_bool_def push_def)

lemma one_kind_FInt: "one_kind (map FInt xs)"
  by (cases xs) (simp_all add: IsTypedVectorElementType_def list_all_iff)

lemma one_kind_FDouble: "one_kind (map FDouble xs)"
  by (cases xs) (simp_all add: IsTypedVectorElementType_def list_all_iff)

lemma one_kind_FBool: "one_kind (map FBool xs)"
  by (cases xs) (simp_all add: IsTypedVectorElementType_def list_all_iff)

lemma one_kind_FString: "one_kind (map FString xs)"
  by (cases xs) (simp_all add: IsTypedVectorElementType_def list_all_iff)

lemma StartVector_key_eq:
  "StartVector_key k b = (Suc (length (stack b)), b\<lparr>stack := stack b @ [FKey k]\<rparr>)"
  by (simp add: StartVector_key_def Key_def push_def)

lemma and_then_Inr: "and_then (Inr x) f = f x"
  by (simp add: and_then_def)

lemma and_then_Inl: "and_then (Inl e) f = Inl e"
  by (simp add: and_then_def)

lemma EndVector_typed_key:
  "one_kind elems \<Longrightarrow>
   EndVector (Suc (length s)) True False (b\<lparr>stack := s @ FKey k # elems\<rparr>) =
     Inr (b\<lparr>stack := s @ [FKey k, FVector True elems]\<rparr>)"
  by (simp add: EndVector_def)

lemma AddIntegerArray_eq:
  "AddIntegerArray vec b = Inr (b\<lparr>stack := stack b @ [FVector False (map FInt vec)]\<rparr>)"
  by (simp add: AddIntegerArray_def StartVector_def fold_Add_int EndVector_def)

section \<open>The encoder against its specification\<close>

lemma encoded_value_None: "encoded_value E a = None \<longleftrightarrow> unsupported_kind a"
  by (cases a) simp_all

lemma add_array_elements_strings:
  "list_all (\<lambda>a. isa_StringAttr a \<or> isa_PrecisionAttr a) xs \<Longrightarrow>
   add_array_elements E xs b =
     Inr (b\<lparr>stack := stack b @ map (\<lambda>a. FString (element_string E a)) xs\<rparr>)"
proof (induction xs arbitrary: b)
  case Nil
  then show ?case by simp
next
  case (Cons a xs)
  then show ?case
    by (cases a) (simp_all add: Add_string_def push_def)
qed

lemma one_kind_strings: "one_kind (map (\<lambda>a. FString (f a)) xs)"
  by (cases xs) (simp_all add: IsTypedVectorElementType_def list_all_iff)

lemma validation_passes:
  "list_all (\<lambda>a. isa_StringAttr a \<or> isa_PrecisionAttr a) xs \<Longrightarrow>
   \<not> (length xs > 1 \<and> \<not> isa_StringAttr (xs ! 0) \<and> \<not> isa_PrecisionAttr (xs ! 0))"
  by (cases xs) auto

lemma BuildOption_encoded:
  assumes "stringifiable a"
  shows "BuildOption E op (key, a) (fbb, ds) =
     Inr (if unsupported_kind a then failure else success,
          fbb\<lparr>stack := stack fbb @ encoded_entry E (key, a)\<rparr>,
          ds @ encoder_warnings op (key, a))"
proof (cases a)
  case (ElementsAttr e)
  show ?thesis
  proof (cases e)
    case (IntElements w xs)
    with ElementsAttr show ?thesis
      by (auto simp: BuildOption_def Let_def StartVector_key_eq fold_Add_int EndVector_typed_key
        one_kind_FInt and_then_Inr encoded_entry_def int_like_def emitWarning_def
        EndVector_typed_key [where elems = "[]", simplified])
  next
    case (FloatElements t ys)
    with ElementsAttr show ?thesis
      by (auto simp: BuildOption_def Let_def StartVector_key_eq fold_Add_double EndVector_typed_key
        one_kind_FDouble and_then_Inr encoded_entry_def float_like_def emitWarning_def
        EndVector_typed_key [where elems = "[]", simplified])
  next
    case OtherElements
    with ElementsAttr show ?thesis
      by (auto simp: BuildOption_def Let_def StartVector_key_eq and_then_Inr encoded_entry_def emitWarning_def
        EndVector_typed_key [where elems = "[]", simplified])
  qed
next
  case (ArrayAttr xs)
  with assms have ok: "list_all (\<lambda>a. isa_StringAttr a \<or> isa_PrecisionAttr a) xs" by simp
  have pass: "\<not> (length xs > 1 \<and> \<not> isa_StringAttr (xs ! 0) \<and> \<not> isa_PrecisionAttr (xs ! 0))"
    by (rule validation_passes [OF ok])
  have "BuildOption E op (key, ArrayAttr xs) (fbb, ds) =
      and_then (add_array_elements E xs (fbb\<lparr>stack := stack fbb @ [FKey (c_str key)]\<rparr>)) (\<lambda>fbb2.
      and_then (EndVector (Suc (length (stack fbb))) True False fbb2) (\<lambda>fbb3. Inr (success, fbb3, ds)))"
    unfolding BuildOption_def using pass by (auto simp: StartVector_key_eq Let_def simp del: One_nat_def)
  with ArrayAttr show ?thesis
    by (simp add: add_array_elements_strings [OF ok]
        and_then_Inr EndVector_typed_key one_kind_strings encoded_entry_def)
qed (simp_all add: BuildOption_def StartVector_key_eq AddIntegerArray_eq Add_int_def push_def
      EndVector_def and_then_Inr encoded_entry_def integer_array_def Int_key_def Double_key_def
      String_key_def Key_def fold_Add_int fold_Add_bool one_kind_FInt one_kind_FBool emitWarning_def)

lemma BuildOptions_encoded:
  "list_all (\<lambda>pair. stringifiable (snd pair)) options \<Longrightarrow>
   BuildOptions E op options (fbb, ds) =
     Inr (fbb\<lparr>stack := stack fbb @ concat (map (encoded_entry E) options)\<rparr>,
          ds @ concat (map (encoder_warnings op) options))"
proof (induction options arbitrary: fbb ds)
  case Nil
  then show ?case by simp
next
  case (Cons pair options)
  obtain key a where pair: "pair = (key, a)" by (cases pair)
  from Cons.prems pair have a: "stringifiable a" and rest: "list_all (\<lambda>pair. stringifiable (snd pair)) options"
    by simp_all
  show ?case
    by (simp add: pair BuildOption_encoded [OF a] Cons.IH [OF rest])
qed

lemma map_entries_encoded:
  "map_entries (concat (map (encoded_entry E) options)) = Some (encoded_map E options)"
proof (induction options)
  case Nil
  then show ?case by (simp add: encoded_map_def)
next
  case (Cons pair options)
  then show ?case
    by (cases "encoded_value E (snd pair)")
       (simp_all add: encoded_entry_def encoded_map_def)
qed

lemma even_length_encoded_entries: "even (length (concat (map (encoded_entry E) options)))"
proof (induction options)
  case Nil
  then show ?case by simp
next
  case (Cons pair options)
  then show ?case
    by (cases "encoded_value E (snd pair)") (simp_all add: encoded_entry_def)
qed

lemma custom_option_buffer_encoded:
  assumes "list_all (\<lambda>pair. stringifiable (snd pair)) options"
  shows "custom_option_buffer E op options ds =
     Inr (FMap (encoded_map E options), ds @ concat (map (encoder_warnings op) options))"
  by (simp add: custom_option_buffer_def BuildOptions_encoded [OF assms] and_then_Inr new_Builder_def
      StartMap_def EndMap_def even_length_encoded_entries map_entries_encoded Finish_def GetBuffer_def)

lemma encoded_map_keys:
  "map fst (encoded_map E options) =
     map (\<lambda>pair. c_str (fst pair)) (filter (\<lambda>pair. \<not> unsupported_kind (snd pair)) options)"
proof (induction options)
  case Nil
  then show ?case by (simp add: encoded_map_def)
next
  case (Cons pair options)
  then show ?case
    using encoded_value_None [of E "snd pair"]
    by (cases "encoded_value E (snd pair)") (simp_all add: encoded_map_def)
qed

lemma BuildOption_diags:
  assumes "BuildOption E op pair (fbb, ds) = Inr (r, fbb', ds')"
  shows "\<exists>new. ds' = ds @ new"
proof (cases "stringifiable (snd pair)")
  case True
  from BuildOption_encoded [OF True, of E op "fst pair" fbb ds] assms
  have "ds' = ds @ encoder_warnings op (fst pair, snd pair)" by simp
  then show ?thesis ..
next
  case False
  then obtain xs where "snd pair = ArrayAttr xs" by (cases "snd pair") simp_all
  with assms show ?thesis
    by (auto simp: BuildOption_def Let_def StartVector_key_eq and_then_def emitWarning_def
        split: sum.splits if_splits)
qed

lemma BuildOptions_diags:
  "BuildOptions E op options (fbb, ds) = Inr (fbb', ds') \<Longrightarrow> \<exists>new. ds' = ds @ new"
proof (induction options arbitrary: fbb ds)
  case Nil
  then show ?case by simp
next
  case (Cons pair options)
  from Cons.prems obtain r fbb1 ds1 where
    one: "BuildOption E op pair (fbb, ds) = Inr (r, fbb1, ds1)"
    and rest: "BuildOptions E op options (fbb1, ds1) = Inr (fbb', ds')"
    by (auto split: sum.splits)
  from BuildOption_diags [OF one] Cons.IH [OF rest] show ?case by auto
qed

lemma custom_option_buffer_diags:
  assumes "custom_option_buffer E op options ds = Inr (payload, ds1)"
  shows "\<exists>new. ds1 = ds @ new"
proof -
  from assms obtain fbb1 where "BuildOptions E op options (new_Builder, ds) = Inr (fbb1, ds1)"
    by (auto simp: custom_option_buffer_def and_then_def split: sum.splits)
  then show ?thesis by (rule BuildOptions_diags)
qed

section \<open>Structured records\<close>

text \<open>
  C6. For every convolution dimension-numbers attribute the encoder pushes the key and
  one untyped vector whose contents are, in this order: the input batch dimension, the
  input feature dimension, the input spatial dimensions as a nested vector, the kernel
  input feature dimension, the kernel output feature dimension, the kernel spatial
  dimensions as a nested vector, the output batch dimension, the output feature
  dimension, and the output spatial dimensions as a nested vector. Nothing is omitted or
  reordered, and no diagnostic is emitted.
\<close>

theorem conv_dimension_numbers_order:
  "BuildOption E op (key, ConvDimensionNumbersAttr d) (fbb, ds) =
     Inr (success,
          fbb\<lparr>stack := stack fbb @
            [FKey (c_str key),
             FVector False
               [FInt (InputBatchDimension d), FInt (InputFeatureDimension d),
                FVector False (map FInt (InputSpatialDimensions d)),
                FInt (KernelInputFeatureDimension d), FInt (KernelOutputFeatureDimension d),
                FVector False (map FInt (KernelSpatialDimensions d)),
                FInt (OutputBatchDimension d), FInt (OutputFeatureDimension d),
                FVector False (map FInt (OutputSpatialDimensions d))]]\<rparr>,
          ds)"
  by (simp add: BuildOption_def Let_def StartVector_key_eq AddIntegerArray_eq Add_int_def push_def
      EndVector_def and_then_Inr)

text \<open>The dimension numbers of an NHWC convolution with an HWIO kernel.\<close>

theorem conv_dimension_numbers_order_witness:
  "BuildOption example_enums example_op
     (''dimension_numbers'',
      ConvDimensionNumbersAttr
        \<lparr>InputBatchDimension = 0, InputFeatureDimension = 3, InputSpatialDimensions = [1, 2],
         KernelInputFeatureDimension = 2, KernelOutputFeatureDimension = 3,
         KernelSpatialDimensions = [0, 1],
         OutputBatchDimension = 0, OutputFeatureDimension = 3,
         OutputSpatialDimensions = [1, 2]\<rparr>)
     (new_Builder, []) =
   Inr (success,
        \<lparr>stack =
           [FKey ''dimension_numbers'',
            FVector False
              [FInt 0, FInt 3, FVector False [FInt 1, FInt 2],
               FInt 2, FInt 3, FVector False [FInt 0, FInt 1],
               FInt 0, FInt 3, FVector False [FInt 1, FInt 2]]],
         finished = False\<rparr>,
        [])"
  using conv_dimension_numbers_order
    [of example_enums example_op "''dimension_numbers''"
      "\<lparr>InputBatchDimension = 0, InputFeatureDimension = 3, InputSpatialDimensions = [1, 2],
        KernelInputFeatureDimension = 2, KernelOutputFeatureDimension = 3,
        KernelSpatialDimensions = [0, 1],
        OutputBatchDimension = 0, OutputFeatureDimension = 3,
        OutputSpatialDimensions = [1, 2]\<rparr>" new_Builder "[]"]
  by (simp add: new_Builder_def)

section \<open>Numeric tensors\<close>

text \<open>
  C2, as the claim states it, fails for 8-bit integers: the guard of the pass lists the
  widths 16, 32, 64, 128 and 1, so a tensor of two 8-bit integers is encoded as an empty
  typed vector, with the warning of the last branch, and its two elements are not
  emitted.
\<close>

theorem elements_int8_not_emitted:
  "BuildOption example_enums example_op (''k'', ElementsAttr (IntElements 8 [1, 2]))
     (new_Builder, []) =
   Inr (success, \<lparr>stack = [FKey ''k'', FVector True []], finished = False\<rparr>,
        [Warning ''loc0''
           ''serialization of ElementsAttr for k only supports Integer and Float.'']) \<and>
   BuildOption example_enums example_op (''k'', ElementsAttr (IntElements 8 [1, 2]))
     (new_Builder, []) \<noteq>
   Inr (success, \<lparr>stack = [FKey ''k'', FVector True [FInt 1, FInt 2]], finished = False\<rparr>, [])"
  by (simp add: BuildOption_def Let_def StartVector_key_eq emitWarning_def and_then_Inr EndVector_def
      new_Builder_def example_op_def)

text \<open>
  C2, amended. For every numeric tensor attribute the encoder pushes the key and one
  typed vector. When the element type is an integer of width 1, 16, 32, 64 or 128 bits
  the vector holds each element as a signed integer, and no diagnostic is emitted; when
  the element type is a 32-, 64- or 128-bit float it holds each element as a double, and
  no diagnostic is emitted; for any other element type (an integer of another width, 8
  bits among them, another float format, or a type that is neither) the vector is
  empty and closed, and exactly one warning is emitted.
\<close>

theorem elements_typed_vector:
  "(w1 \<in> {1, 16, 32, 64, 128} \<longrightarrow>
      BuildOption E op (key, ElementsAttr (IntElements w1 xs)) (fbb, ds) =
        Inr (success, fbb\<lparr>stack := stack fbb @ [FKey (c_str key), FVector True (map FInt xs)]\<rparr>, ds)) \<and>
   (t1 \<in> {F32, F64, F128} \<longrightarrow>
      BuildOption E op (key, ElementsAttr (FloatElements t1 ys)) (fbb, ds) =
        Inr (success, fbb\<lparr>stack := stack fbb @ [FKey (c_str key), FVector True (map FDouble ys)]\<rparr>, ds)) \<and>
   (e = OtherElements \<or> (e = IntElements w2 xs \<and> w2 \<notin> {1, 16, 32, 64, 128}) \<or>
    (e = FloatElements t2 ys \<and> t2 \<notin> {F32, F64, F128}) \<longrightarrow>
      BuildOption E op (key, ElementsAttr e) (fbb, ds) =
        Inr (success, fbb\<lparr>stack := stack fbb @ [FKey (c_str key), FVector True []]\<rparr>,
             ds @ [Warning (op_loc op)
                     (''serialization of ElementsAttr for '' @ c_str key @
                      '' only supports Integer and Float.'')]))"
proof (intro conjI impI)
  assume "w1 \<in> {1, 16, 32, 64, 128}"
  then show "BuildOption E op (key, ElementsAttr (IntElements w1 xs)) (fbb, ds) =
        Inr (success, fbb\<lparr>stack := stack fbb @ [FKey (c_str key), FVector True (map FInt xs)]\<rparr>, ds)"
    by (auto simp: BuildOption_def Let_def StartVector_key_eq fold_Add_int EndVector_typed_key
        one_kind_FInt and_then_Inr)
next
  assume "t1 \<in> {F32, F64, F128}"
  then show "BuildOption E op (key, ElementsAttr (FloatElements t1 ys)) (fbb, ds) =
        Inr (success, fbb\<lparr>stack := stack fbb @ [FKey (c_str key), FVector True (map FDouble ys)]\<rparr>, ds)"
    by (auto simp: BuildOption_def Let_def StartVector_key_eq fold_Add_double EndVector_typed_key
        one_kind_FDouble and_then_Inr)
next
  assume "e = OtherElements \<or> (e = IntElements w2 xs \<and> w2 \<notin> {1, 16, 32, 64, 128}) \<or>
    (e = FloatElements t2 ys \<and> t2 \<notin> {F32, F64, F128})"
  then show "BuildOption E op (key, ElementsAttr e) (fbb, ds) =
        Inr (success, fbb\<lparr>stack := stack fbb @ [FKey (c_str key), FVector True []]\<rparr>,
             ds @ [Warning (op_loc op)
                     (''serialization of ElementsAttr for '' @ c_str key @
                      '' only supports Integer and Float.'')])"
    using EndVector_typed_key [where elems = "[]" and s = "stack fbb" and b = fbb and k = "c_str key"]
    by (auto simp: BuildOption_def Let_def StartVector_key_eq emitWarning_def and_then_Inr)
qed

text \<open>A tensor of 16-bit integers, one of 64-bit floats and one of 16-bit floats.\<close>

theorem elements_typed_vector_witness:
  "BuildOption example_enums example_op (''k'', ElementsAttr (IntElements 16 [1, 2]))
     (new_Builder, []) =
     Inr (success, \<lparr>stack = [FKey ''k'', FVector True [FInt 1, FInt 2]], finished = False\<rparr>, []) \<and>
   BuildOption example_enums example_op (''k'', ElementsAttr (FloatElements F64 [3]))
     (new_Builder, []) =
     Inr (success, \<lparr>stack = [FKey ''k'', FVector True [FDouble 3]], finished = False\<rparr>, []) \<and>
   BuildOption example_enums example_op (''k'', ElementsAttr (FloatElements F16 [3]))
     (new_Builder, []) =
     Inr (success, \<lparr>stack = [FKey ''k'', FVector True []], finished = False\<rparr>,
          [Warning ''loc0''
             ''serialization of ElementsAttr for k only supports Integer and Float.''])"
  using elements_typed_vector
    [of 16 example_enums example_op "''k''" "[1, 2]" new_Builder "[]" F64 "[3]"
      "FloatElements F16 [3]" 8 F16]
  by (simp add: new_Builder_def example_op_def)

section \<open>Heterogeneous lists and unsupported values\<close>

text \<open>
  C3, as the claim states it, fails twice. A list of a string and an integer passes the
  validation, which looks at the first element only, and the loop then reads the string
  of an element that is not one: the call does not return. And a tensor with an
  unsupported element type is not omitted: its key is bound to an empty vector.
\<close>

theorem encode_call_aborts_on_mixed_list:
  "BuildOption example_enums example_op (''k'', ArrayAttr [StringAttr ''a'', IntegerAttr 1])
     (new_Builder, []) = Inl NullAttrDeref \<and>
   BuildOption example_enums example_op (''k'', ElementsAttr OtherElements) (new_Builder, []) =
     Inr (success, \<lparr>stack = [FKey ''k'', FVector True []], finished = False\<rparr>,
          [Warning ''loc0''
             ''serialization of ElementsAttr for k only supports Integer and Float.''])"
  by (simp add: BuildOption_def Let_def StartVector_key_eq and_then_def Add_string_def push_def
      EndVector_def emitWarning_def new_Builder_def example_op_def)

text \<open>
  C3, amended. For every attribute name/value pair whose value is not a heterogeneous
  list holding an element that is neither a string nor a precision tag, the encode call
  returns to its caller. A value of a kind the encoder does not know results only in one
  warning, and the builder is left as it was: the entry is omitted. A tensor with an
  unsupported element type results in one warning and in its key bound to an empty typed
  vector.
\<close>

theorem encode_call_returns:
  assumes "stringifiable a"
  shows "(\<exists>r fbb' ds'. BuildOption E op (key, a) (fbb, ds) = Inr (r, fbb', ds')) \<and>
     (unsupported_kind a \<longrightarrow>
        BuildOption E op (key, a) (fbb, ds) =
          Inr (failure, fbb,
               ds @ [Warning (op_loc op) (''serialization not supported for : '' @ c_str key)])) \<and>
     (\<not> elements_supported e \<longrightarrow>
        BuildOption E op (key, ElementsAttr e) (fbb, ds) =
          Inr (success, fbb\<lparr>stack := stack fbb @ [FKey (c_str key), FVector True []]\<rparr>,
               ds @ [Warning (op_loc op)
                       (''serialization of ElementsAttr for '' @ c_str key @
                        '' only supports Integer and Float.'')]))"
proof (intro conjI impI)
  show "\<exists>r fbb' ds'. BuildOption E op (key, a) (fbb, ds) = Inr (r, fbb', ds')"
    using BuildOption_encoded [OF assms] by blast
next
  assume u: "unsupported_kind a"
  then have "encoded_value E a = None" by (simp add: encoded_value_None)
  moreover from u have "encoder_warnings op (key, a) =
      [Warning (op_loc op) (''serialization not supported for : '' @ c_str key)]"
    by (cases a) simp_all
  ultimately show "BuildOption E op (key, a) (fbb, ds) =
      Inr (failure, fbb, ds @ [Warning (op_loc op) (''serialization not supported for : '' @ c_str key)])"
    using u by (simp add: BuildOption_encoded [OF assms] encoded_entry_def)
next
  assume "\<not> elements_supported e"
  then have "elements_values e = []" by (cases e) simp_all
  with \<open>\<not> elements_supported e\<close>
  show "BuildOption E op (key, ElementsAttr e) (fbb, ds) =
          Inr (success, fbb\<lparr>stack := stack fbb @ [FKey (c_str key), FVector True []]\<rparr>,
               ds @ [Warning (op_loc op)
                       (''serialization of ElementsAttr for '' @ c_str key @
                        '' only supports Integer and Float.'')])"
    by (simp add: BuildOption_encoded encoded_entry_def)
qed

text \<open>A list of a precision tag and a string, a unit attribute, and a tensor of 8-bit integers.\<close>

theorem encode_call_returns_witness:
  "(\<exists>r fbb' ds'.
      BuildOption example_enums example_op
        (''precision_config'', ArrayAttr [PrecisionAttr DEFAULT, StringAttr ''x''])
        (new_Builder, []) = Inr (r, fbb', ds')) \<and>
   BuildOption example_enums example_op (''u'', UnitAttr) (new_Builder, []) =
     Inr (failure, new_Builder, [Warning ''loc0'' ''serialization not supported for : u'']) \<and>
   BuildOption example_enums example_op (''t'', ElementsAttr (IntElements 8 [1])) (new_Builder, []) =
     Inr (success, \<lparr>stack = [FKey ''t'', FVector True []], finished = False\<rparr>,
          [Warning ''loc0''
             ''serialization of ElementsAttr for t only supports Integer and Float.''])"
proof -
  have s1: "stringifiable (ArrayAttr [PrecisionAttr DEFAULT, StringAttr ''x''])" by simp
  have s2: "stringifiable UnitAttr" by simp
  have u: "unsupported_kind UnitAttr" by simp
  have e: "\<not> elements_supported (IntElements 8 [1])" by (simp add: int_like_def)
  from encode_call_returns
    [OF s1, of example_enums example_op "''precision_config''" new_Builder "[]"]
  have 1: "\<exists>r fbb' ds'.
      BuildOption example_enums example_op
        (''precision_config'', ArrayAttr [PrecisionAttr DEFAULT, StringAttr ''x''])
        (new_Builder, []) = Inr (r, fbb', ds')"
    by blast
  from encode_call_returns
    [OF s2, of example_enums example_op "''u''" new_Builder "[]" "IntElements 8 [1]"] u
  have 2: "BuildOption example_enums example_op (''u'', UnitAttr) (new_Builder, []) =
     Inr (failure, new_Builder, [Warning ''loc0'' ''serialization not supported for : u''])"
    by (simp add: example_op_def)
  from encode_call_returns
    [OF s2, of example_enums example_op "''t''" new_Builder "[]" "IntElements 8 [1]"] e
  have 3: "BuildOption example_enums example_op (''t'', ElementsAttr (IntElements 8 [1]))
      (new_Builder, []) =
     Inr (success, \<lparr>stack = [FKey ''t'', FVector True []], finished = False\<rparr>,
          [Warning ''loc0''
             ''serialization of ElementsAttr for t only supports Integer and Float.''])"
    by (simp add: example_op_def new_Builder_def)
  from 1 2 3 show ?thesis by simp
qed

text \<open>
  C4. The claim says that a heterogeneous list failing validation still binds its key to
  an empty vector and leaves the builder consistent. The pass returns right after the
  warning, before \<^verbatim>\<open>EndVector\<close>: the key stays on the stack with no value, and closing the map
  after a further entry fails. The tensor branch, for an unsupported element type, warns
  and does close its vector.
\<close>

theorem invalid_list_leaves_key_open:
  "BuildOption example_enums example_op
     (''called_computations'', ArrayAttr [SymbolRefAttr ''f'', SymbolRefAttr ''g''])
     (new_Builder, []) =
     Inr (success, \<lparr>stack = [FKey ''called_computations''], finished = False\<rparr>,
          [Warning ''loc0''
             ''serialization of ArrayAttr for called_computations only supports Strings.'']) \<and>
   custom_option_buffer example_enums example_op
     [(''call_target_name'', StringAttr ''foo''),
      (''called_computations'', ArrayAttr [SymbolRefAttr ''f'', SymbolRefAttr ''g'']),
      (''has_side_effect'', IntegerAttr 0)] [] =
     Inl BuilderAssert"
  by (simp add: custom_option_buffer_def BuildOption_def Let_def StartVector_key_eq and_then_def
      emitWarning_def new_Builder_def example_op_def StartMap_def EndMap_def Int_key_def
      String_key_def Key_def push_def)

text \<open>
  C5. A list of one element is valid whatever the element is (the validation applies to
  lists of more than one element), so the claim promises one stringified entry for it.
  For one symbol reference the pass reads the string of a null attribute instead.
\<close>

theorem single_element_list_null_deref:
  "BuildOption example_enums example_op
     (''called_computations'', ArrayAttr [SymbolRefAttr ''f'']) (new_Builder, []) =
     Inl NullAttrDeref"
  by (simp add: BuildOption_def Let_def StartVector_key_eq and_then_def)

text \<open>
  C8. The claim covers every attribute map that interleaves unsupported kinds with
  supported ones. In the attributes of a custom call with a dictionary as its backend
  configuration and two called computations, the dictionary is skipped with a warning,
  but the list of symbol references fails validation and leaves its key on the stack
  (C4), so the map cannot be closed: there is no output map with the supported keys.
\<close>

theorem unsupported_next_to_invalid_list:
  "custom_option_buffer example_enums example_op
     [(''backend_config'', DictionaryAttr []),
      (''call_target_name'', StringAttr ''foo''),
      (''called_computations'', ArrayAttr [SymbolRefAttr ''f'', SymbolRefAttr ''g'']),
      (''has_side_effect'', IntegerAttr 0)] [] =
     Inl BuilderAssert"
  by (simp add: custom_option_buffer_def BuildOption_def Let_def StartVector_key_eq and_then_def
      emitWarning_def new_Builder_def example_op_def StartMap_def EndMap_def Int_key_def Key_def
      String_key_def push_def)

section \<open>The rewrite of one operation\<close>

lemma rewrite_at:
  assumes "i < length ops"
  shows "erase (Suc i) (replaceAllUsesWith old new (insert_before i n ops)) =
     (replaceAllUsesWith old new ops)
       [i := n\<lparr>op_operands := map (replace_use old new) (op_operands n)\<rparr>]"
proof -
  let ?f = "\<lambda>user. user\<lparr>op_operands := map (replace_use old new) (op_operands user)\<rparr>"
  have len: "length (take i (map ?f ops)) = i" using assms by simp
  have "erase (Suc i) (replaceAllUsesWith old new (insert_before i n ops)) =
        erase (Suc i) (take i (map ?f ops) @ ?f n # drop i (map ?f ops))"
    by (simp add: replaceAllUsesWith_def insert_before_def take_map drop_map)
  also have "\<dots> = take i (map ?f ops) @ ?f n # drop (Suc i) (map ?f ops)"
    using len by (simp add: erase_def)
  also have "\<dots> = (map ?f ops)[i := ?f n]"
    using assms by (simp add: upd_conv_take_nth_drop)
  finally show ?thesis by (simp add: replaceAllUsesWith_def)
qed

lemma legalize_op_skip:
  "op_dialect (body st ! i) \<noteq> ''stablehlo'' \<Longrightarrow> legalize_op E i st = Inr st"
  by (simp add: legalize_op_def)

lemma walk_skip:
  "\<forall>i\<in>set is. op_dialect (body st ! i) \<noteq> ''stablehlo'' \<Longrightarrow> walk E is st = Inr st"
  by (induction "is") (simp_all add: legalize_op_skip)

lemma legalize_op_rewrite:
  assumes "i < length (body st)"
    and "op_dialect (body st ! i) = ''stablehlo''"
    and "custom_name_and_options (body st ! i) (diagnostics st) = (name, options, ds)"
    and "custom_option_buffer E (body st ! i) options ds = Inr (buffer, ds1)"
  shows "legalize_op E i st =
     Inr \<lparr>body = (replaceAllUsesWith (op_id (body st ! i)) (next_id st) (body st))
                   [i := create_CustomOp (next_id st) (op_loc (body st ! i))
                           (op_result_types (body st ! i))
                           (map (replace_use (op_id (body st ! i)) (next_id st))
                              (op_operands (body st ! i)))
                           name (ConstBytesAttr buffer)],
          diagnostics = ds1, next_id = Suc (next_id st)\<rparr>"
proof -
  have id: "op_id (create_CustomOp (next_id st) l tys args name co) = next_id st" for l tys args co
    by (simp add: create_CustomOp_def)
  show ?thesis
    using assms(2-4)
    by (simp add: legalize_op_def Let_def and_then_Inr id rewrite_at [OF assms(1)] CustomOption_def)
       (simp add: create_CustomOp_def)
qed

lemma replace_use_removes: "old \<noteq> new \<Longrightarrow> replace_use old new v \<noteq> OpResult old k"
  by (cases v) auto

lemma replace_use_unused: "\<not> uses_result_of old v \<Longrightarrow> replace_use old new v = v"
  by (cases v) auto

lemma replace_use_unused_list:
  "\<not> list_ex (uses_result_of old) vs \<Longrightarrow> map (replace_use old new) vs = vs"
  by (induction vs) (simp_all add: replace_use_unused)

section \<open>Units without StableHLO operations\<close>

text \<open>
  C9. For every unit that holds no operation of the StableHLO dialect, running the pass
  is a no-op: it returns the unit as it was, the operations unchanged and no diagnostic
  added.
\<close>

theorem no_stablehlo_is_noop:
  assumes "\<forall>op\<in>set (body fn). op_dialect op \<noteq> ''stablehlo''"
  shows "runOnOperation E fn = Inr fn"
  unfolding runOnOperation_def
  by (rule walk_skip) (use assms in auto)

text \<open>A unit of a constant and a return.\<close>

theorem no_stablehlo_is_noop_witness:
  "runOnOperation example_enums example_plain_unit = Inr example_plain_unit"
proof -
  have h: "\<forall>op\<in>set (body example_plain_unit). op_dialect op \<noteq> ''stablehlo''"
    by (simp add: example_plain_unit_def)
  from no_stablehlo_is_noop [OF h, of example_enums] show ?thesis .
qed

section \<open>The replacement node\<close>

text \<open>
  C1. The claim says that for every StableHLO operation the pass processes, one
  replacement node is constructed, the uses are rewired and the original is erased. For
  a custom call with one called computation, in a well-formed unit, the callback stops in
  the encoder, at the read through a null attribute (C5), before the replacement is
  created: no node is constructed, and the pass as a whole stops there.
\<close>

theorem custom_call_not_replaced:
  "wf_unit example_custom_call_unit \<and>
   op_dialect (body example_custom_call_unit ! 0) = ''stablehlo'' \<and>
   legalize_op example_enums 0 example_custom_call_unit = Inl NullAttrDeref \<and>
   runOnOperation example_enums example_custom_call_unit = Inl NullAttrDeref"
proof -
  have b: "custom_option_buffer example_enums op
      [(''call_target_name'', StringAttr ''foo''),
       (''called_computations'', ArrayAttr [SymbolRefAttr ''f''])] [] = Inl NullAttrDeref" for op
    by (simp add: custom_option_buffer_def BuildOption_def Let_def StartVector_key_eq
        and_then_def String_key_def Key_def push_def new_Builder_def)
  have l: "legalize_op example_enums 0 example_custom_call_unit = Inl NullAttrDeref"
    by (simp add: legalize_op_def example_custom_call_unit_def custom_name_and_options_def b
        and_then_Inl)
  have w: "wf_unit example_custom_call_unit"
    by (simp add: wf_unit_def example_custom_call_unit_def)
  have d: "op_dialect (body example_custom_call_unit ! 0) = ''stablehlo''"
    by (simp add: example_custom_call_unit_def)
  have "length (body example_custom_call_unit) = Suc (Suc 0)"
    by (simp add: example_custom_call_unit_def)
  then have r: "runOnOperation example_enums example_custom_call_unit = Inl NullAttrDeref"
    by (simp add: runOnOperation_def upt_rec l)
  from w d l r show ?thesis by simp
qed

text \<open>
  When the options of the operation do serialize into a payload, the callback constructs
  exactly one replacement: the unit keeps its length and stays well formed, one identity
  is used up, the operation at the original position is a \<^verbatim>\<open>tfl.custom\<close> operation with
  the original's result types, the original's operands in unchanged order, the original's
  location, the chosen custom-op name and the payload; every other operation is the one
  that was there, with the operand at each position that was result \<open>k\<close> of the original
  now result \<open>k\<close> of the replacement and every other operand as it was; no use of the
  original's results is left; and the original is no longer in the unit.
\<close>

lemma replace_use_case:
  "replace_use old new v =
     (case v of
        OpResult p k \<Rightarrow> if p = old then OpResult new k else OpResult p k
      | BlockArgument n \<Rightarrow> BlockArgument n)"
  by (cases v) simp_all

lemma created_before_replace_use:
  "created_before n v \<Longrightarrow> created_before (Suc n) (replace_use old n v)"
  by (cases v) auto

lemma created_before_Suc: "created_before n v \<Longrightarrow> created_before (Suc n) v"
  by (cases v) auto

lemma uses_result_of_replace_use:
  "\<not> uses_result_of p v \<Longrightarrow> p \<noteq> new \<Longrightarrow> \<not> uses_result_of p (replace_use old new v)"
  by (cases v) auto

lemma created_before_not_uses: "created_before n v \<Longrightarrow> \<not> uses_result_of n v"
  by (cases v) auto

theorem replacement_node:
  assumes wf: "wf_unit st"
    and i: "i < length (body st)"
    and op: "body st ! i = op"
    and d: "op_dialect op = ''stablehlo''"
    and n: "custom_name_and_options op (diagnostics st) = (name, options, ds)"
    and b: "custom_option_buffer E op options ds = Inr (payload, ds1)"
  shows "\<exists>st'. legalize_op E i st = Inr st' \<and>
      length (body st') = length (body st) \<and>
      next_id st' = Suc (next_id st) \<and>
      wf_unit st' \<and>
      body st' ! i =
        \<lparr>op_id = next_id st, op_dialect = ''tfl'', op_name = ''tfl.custom'',
         op_attrs = [(''custom_code'', StringAttr name), (''custom_option'', ConstBytesAttr payload)],
         op_operands = op_operands op, op_result_types = op_result_types op,
         op_loc = op_loc op, op_composite = None\<rparr> \<and>
      (\<forall>j<length (body st). j \<noteq> i \<longrightarrow>
         (\<exists>args. body st' ! j = (body st ! j)\<lparr>op_operands := args\<rparr> \<and>
            length args = length (op_operands (body st ! j)) \<and>
            (\<forall>m<length args.
               args ! m =
                 (case op_operands (body st ! j) ! m of
                    OpResult p k \<Rightarrow>
                      if p = op_id op then OpResult (next_id st) k else OpResult p k
                  | BlockArgument a \<Rightarrow> BlockArgument a)))) \<and>
      (\<forall>user\<in>set (body st'). \<forall>k. OpResult (op_id op) k \<notin> set (op_operands user)) \<and>
      (\<forall>other\<in>set (body st'). op_id other \<noteq> op_id op)"
proof -
  let ?old = "op_id op" and ?new = "next_id st"
  let ?f = "\<lambda>user. user\<lparr>op_operands := map (replace_use ?old ?new) (op_operands user)\<rparr>"
  let ?custom = "create_CustomOp ?new (op_loc op) (op_result_types op)
                   (map (replace_use ?old ?new) (op_operands op)) name (ConstBytesAttr payload)"
  let ?st' = "\<lparr>body = (replaceAllUsesWith ?old ?new (body st))[i := ?custom],
               diagnostics = ds1, next_id = Suc ?new\<rparr>"
  have mem: "op \<in> set (body st)" using i op by auto
  from wf have dist: "distinct (map op_id (body st))"
    and fresh: "\<forall>x\<in>set (body st). op_id x < next_id st"
    and noself: "\<forall>x\<in>set (body st). \<not> list_ex (uses_result_of (op_id x)) (op_operands x)"
    and before: "\<forall>x\<in>set (body st). \<forall>v\<in>set (op_operands x). created_before (next_id st) v"
    by (simp_all add: wf_unit_def list_all_iff)
  from fresh mem have ne: "?old \<noteq> ?new" by auto
  from noself mem have same: "map (replace_use ?old ?new) (op_operands op) = op_operands op"
    by (simp add: replace_use_unused_list)
  have run: "legalize_op E i st = Inr ?st'"
    using legalize_op_rewrite [of i st name options ds E payload ds1] i op d n b by simp
  have len: "length (body ?st') = length (body st)"
    by (simp add: replaceAllUsesWith_def)
  have created: "next_id ?st' = Suc (next_id st)" by simp
  have at: "body ?st' ! i =
        \<lparr>op_id = next_id st, op_dialect = ''tfl'', op_name = ''tfl.custom'',
         op_attrs = [(''custom_code'', StringAttr name), (''custom_option'', ConstBytesAttr payload)],
         op_operands = op_operands op, op_result_types = op_result_types op,
         op_loc = op_loc op, op_composite = None\<rparr>"
    using i by (simp add: replaceAllUsesWith_def create_CustomOp_def same)
  have others: "\<forall>j<length (body st). j \<noteq> i \<longrightarrow>
         (\<exists>args. body ?st' ! j = (body st ! j)\<lparr>op_operands := args\<rparr> \<and>
            length args = length (op_operands (body st ! j)) \<and>
            (\<forall>m<length args.
               args ! m =
                 (case op_operands (body st ! j) ! m of
                    OpResult p k \<Rightarrow>
                      if p = op_id op then OpResult (next_id st) k else OpResult p k
                  | BlockArgument a \<Rightarrow> BlockArgument a)))"
  proof (intro allI impI)
    fix j assume j: "j < length (body st)" "j \<noteq> i"
    let ?args = "map (replace_use ?old ?new) (op_operands (body st ! j))"
    have "body ?st' ! j = (body st ! j)\<lparr>op_operands := ?args\<rparr>"
      using j by (simp add: replaceAllUsesWith_def)
    moreover have "length ?args = length (op_operands (body st ! j))" by simp
    moreover have "\<forall>m<length ?args.
               ?args ! m =
                 (case op_operands (body st ! j) ! m of
                    OpResult p k \<Rightarrow>
                      if p = op_id op then OpResult (next_id st) k else OpResult p k
                  | BlockArgument a \<Rightarrow> BlockArgument a)"
      by (simp add: replace_use_case)
    ultimately show "\<exists>args. body ?st' ! j = (body st ! j)\<lparr>op_operands := args\<rparr> \<and>
            length args = length (op_operands (body st ! j)) \<and>
            (\<forall>m<length args.
               args ! m =
                 (case op_operands (body st ! j) ! m of
                    OpResult p k \<Rightarrow>
                      if p = op_id op then OpResult (next_id st) k else OpResult p k
                  | BlockArgument a \<Rightarrow> BlockArgument a))"
      by blast
  qed
  have body_cases: "user = ?custom \<or> (\<exists>j<length (body st). j \<noteq> i \<and> user = ?f (body st ! j))"
    if "user \<in> set (body ?st')" for user
  proof -
    from that len obtain j where j: "j < length (body st)" and u: "user = body ?st' ! j"
      by (metis in_set_conv_nth)
    show ?thesis
    proof (cases "j = i")
      case True
      with u i show ?thesis by (simp add: replaceAllUsesWith_def)
    next
      case False
      with u j show ?thesis by (auto simp: replaceAllUsesWith_def)
    qed
  qed
  have nouse: "\<forall>user\<in>set (body ?st'). \<forall>k. OpResult ?old k \<notin> set (op_operands user)"
  proof (intro ballI allI)
    fix user k
    assume "user \<in> set (body ?st')"
    then have "\<exists>vs. op_operands user = map (replace_use ?old ?new) vs"
      using body_cases [of user] by (auto simp: create_CustomOp_def)
    then obtain vs where vs: "op_operands user = map (replace_use ?old ?new) vs" ..
    show "OpResult ?old k \<notin> set (op_operands user)"
    proof
      assume "OpResult ?old k \<in> set (op_operands user)"
      with vs obtain v where "replace_use ?old ?new v = OpResult ?old k" by auto
      with replace_use_removes [OF ne] show False by blast
    qed
  qed
  have erased: "\<forall>other\<in>set (body ?st'). op_id other \<noteq> ?old"
  proof
    fix other
    assume "other \<in> set (body ?st')"
    then consider "other = ?custom"
      | j where "j < length (body st)" "j \<noteq> i" "other = ?f (body st ! j)"
      using body_cases [of other] by blast
    then show "op_id other \<noteq> ?old"
    proof cases
      case 1
      then show ?thesis using ne by (simp add: create_CustomOp_def)
    next
      case 2
      have "map op_id (body st) ! j \<noteq> map op_id (body st) ! i"
        using dist 2(1,2) i by (simp add: nth_eq_iff_index_eq del: nth_map)
      with 2 i op show ?thesis by simp
    qed
  qed
  have ids: "map op_id (body ?st') = (map op_id (body st))[i := ?new]"
    by (simp add: replaceAllUsesWith_def map_update create_CustomOp_def comp_def)
  have "?new \<notin> set (map op_id (body st))" using fresh by auto
  with dist have wf1: "distinct (map op_id (body ?st'))"
    unfolding ids by (simp add: distinct_list_update)
  have wf2: "\<forall>x\<in>set (body ?st'). op_id x < Suc ?new"
  proof
    fix x assume "x \<in> set (body ?st')"
    then consider "x = ?custom"
      | j where "j < length (body st)" "j \<noteq> i" "x = ?f (body st ! j)"
      using body_cases [of x] by blast
    then show "op_id x < Suc ?new"
    proof cases
      case 1
      then show ?thesis by (simp add: create_CustomOp_def)
    next
      case 2
      with fresh have "op_id (body st ! j) < ?new" by simp
      with 2 show ?thesis by simp
    qed
  qed
  have wf4: "\<forall>x\<in>set (body ?st'). \<forall>v\<in>set (op_operands x). created_before (Suc ?new) v"
  proof (intro ballI)
    fix x v assume x: "x \<in> set (body ?st')" and v: "v \<in> set (op_operands x)"
    from x consider "x = ?custom"
      | j where "j < length (body st)" "j \<noteq> i" "x = ?f (body st ! j)"
      using body_cases [of x] by blast
    then show "created_before (Suc ?new) v"
    proof cases
      case 1
      with v same have "v \<in> set (op_operands op)" by (simp add: create_CustomOp_def)
      with before mem show ?thesis by (auto intro: created_before_Suc)
    next
      case 2
      with v obtain u where u: "u \<in> set (op_operands (body st ! j))"
        and vu: "v = replace_use ?old ?new u"
        by auto
      from 2(1) have "body st ! j \<in> set (body st)" by simp
      with before u have "created_before ?new u" by blast
      with vu show ?thesis by (simp add: created_before_replace_use)
    qed
  qed
  have wf3: "\<forall>x\<in>set (body ?st'). \<not> list_ex (uses_result_of (op_id x)) (op_operands x)"
  proof
    fix x assume x: "x \<in> set (body ?st')"
    from x consider "x = ?custom"
      | j where "j < length (body st)" "j \<noteq> i" "x = ?f (body st ! j)"
      using body_cases [of x] by blast
    then show "\<not> list_ex (uses_result_of (op_id x)) (op_operands x)"
    proof cases
      case 1
      have "\<forall>v\<in>set (op_operands op). \<not> uses_result_of ?new v"
      proof
        fix v assume "v \<in> set (op_operands op)"
        with before mem have "created_before ?new v" by blast
        then show "\<not> uses_result_of ?new v" by (rule created_before_not_uses)
      qed
      with 1 same show ?thesis by (simp add: create_CustomOp_def list_ex_iff)
    next
      case 2
      let ?y = "body st ! j"
      from 2(1) have y: "?y \<in> set (body st)" by simp
      with fresh have "op_id ?y \<noteq> ?new" by auto
      moreover from noself y have "\<forall>v\<in>set (op_operands ?y). \<not> uses_result_of (op_id ?y) v"
        by (simp add: list_ex_iff)
      ultimately have "\<forall>v\<in>set (op_operands ?y).
          \<not> uses_result_of (op_id ?y) (replace_use ?old ?new v)"
        using uses_result_of_replace_use [of "op_id ?y" _ ?new ?old] by blast
      with 2 show ?thesis by (simp add: list_ex_iff)
    qed
  qed
  from wf1 wf2 wf3 wf4 have wf': "wf_unit ?st'"
    by (simp add: wf_unit_def list_all_iff)
  from run len created wf' at others nouse erased show ?thesis by blast
qed

text \<open>The addition of the example unit, at position 1, used by the return at position 2.\<close>

theorem replacement_node_witness:
  "\<exists>st'. legalize_op example_enums 1 example_unit = Inr st' \<and>
      length (body st') = length (body example_unit) \<and>
      wf_unit st' \<and>
      body st' ! 1 =
        \<lparr>op_id = 3, op_dialect = ''tfl'', op_name = ''tfl.custom'',
         op_attrs = [(''custom_code'', StringAttr ''stablehlo.add''),
                     (''custom_option'',
                      ConstBytesAttr (FMap [(''axis'', FInt 1), (''scale'', FDouble 0x4004000000000000)]))],
         op_operands = [OpResult 0 0, BlockArgument 0], op_result_types = [''tensor<2xf32>''],
         op_loc = ''loc1'', op_composite = None\<rparr> \<and>
      op_operands (body st' ! 2) = [OpResult 3 0] \<and>
      (\<forall>user\<in>set (body st'). \<forall>k. OpResult 1 k \<notin> set (op_operands user)) \<and>
      (\<forall>other\<in>set (body st'). op_id other \<noteq> 1)"
proof -
  let ?op = "body example_unit ! 1"
  have wf: "wf_unit example_unit"
    by (simp add: wf_unit_def example_unit_def)
  have i: "1 < length (body example_unit)"
    by (simp add: example_unit_def)
  have d: "op_dialect ?op = ''stablehlo''"
    by (simp add: example_unit_def)
  have n: "custom_name_and_options ?op (diagnostics example_unit) =
      (''stablehlo.add'', [(''axis'', IntegerAttr 1), (''scale'', FloatAttr 0x4004000000000000)], [])"
    by (simp add: custom_name_and_options_def example_unit_def)
  have b: "custom_option_buffer example_enums ?op
      [(''axis'', IntegerAttr 1), (''scale'', FloatAttr 0x4004000000000000)] [] =
      Inr (FMap [(''axis'', FInt 1), (''scale'', FDouble 0x4004000000000000)], [])"
    by (simp add: custom_option_buffer_encoded encoded_map_def)
  from replacement_node [OF wf i refl d n b]
  obtain st' where st': "legalize_op example_enums 1 example_unit = Inr st'"
      "length (body st') = length (body example_unit)"
      "wf_unit st'"
      "body st' ! 1 =
        \<lparr>op_id = next_id example_unit, op_dialect = ''tfl'', op_name = ''tfl.custom'',
         op_attrs = [(''custom_code'', StringAttr ''stablehlo.add''),
                     (''custom_option'',
                      ConstBytesAttr (FMap [(''axis'', FInt 1), (''scale'', FDouble 0x4004000000000000)]))],
         op_operands = op_operands ?op, op_result_types = op_result_types ?op,
         op_loc = op_loc ?op, op_composite = None\<rparr>"
      "\<forall>j<length (body example_unit). j \<noteq> 1 \<longrightarrow>
         (\<exists>args. body st' ! j = (body example_unit ! j)\<lparr>op_operands := args\<rparr> \<and>
            length args = length (op_operands (body example_unit ! j)) \<and>
            (\<forall>m<length args.
               args ! m =
                 (case op_operands (body example_unit ! j) ! m of
                    OpResult p k \<Rightarrow>
                      if p = op_id ?op then OpResult (next_id example_unit) k else OpResult p k
                  | BlockArgument a \<Rightarrow> BlockArgument a)))"
      "\<forall>user\<in>set (body st'). \<forall>k. OpResult (op_id ?op) k \<notin> set (op_operands user)"
      "\<forall>other\<in>set (body st'). op_id other \<noteq> op_id ?op"
    by blast
  have j2: "2 < length (body example_unit)" "(2::nat) \<noteq> 1"
    by (simp_all add: example_unit_def)
  from st'(5) j2 obtain args where args: "body st' ! 2 = (body example_unit ! 2)\<lparr>op_operands := args\<rparr>"
      "length args = length (op_operands (body example_unit ! 2))"
      "\<forall>m<length args.
               args ! m =
                 (case op_operands (body example_unit ! 2) ! m of
                    OpResult p k \<Rightarrow>
                      if p = op_id ?op then OpResult (next_id example_unit) k else OpResult p k
                  | BlockArgument a \<Rightarrow> BlockArgument a)"
    by blast
  from args(2) have l1: "length args = 1" by (simp add: example_unit_def)
  with args(3) have "args ! 0 = OpResult 3 0" by (simp add: example_unit_def)
  with l1 have "args = [OpResult 3 0]" by (cases args) simp_all
  with args(1) have "op_operands (body st' ! 2) = [OpResult 3 0]" by simp
  with st'(1,2,3,4,6,7) show ?thesis
    by (intro exI [of _ st']) (simp add: example_unit_def)
qed

section \<open>Composites\<close>

text \<open>
  C7. For every composite whose inner name is \<^verbatim>\<open>odml.update_kv_cache\<close> or
  \<^verbatim>\<open>odml.scaled_dot_product_attention\<close>, the custom node's name is the composite's inner name
  and its payload is the buffer built from the composite's nested dictionary, not from
  the attributes of the composite operation itself; no warning is emitted for the
  composite. For every composite with another inner name, a warning is emitted first, and
  the node is treated as a generic one: the custom node's name is the operation's own
  name and its payload is the buffer built from the operation's own attributes.
\<close>

theorem composite_allow_list:
  assumes i: "i < length (body st)"
    and op: "body st ! i = op"
    and d: "op_dialect op = ''stablehlo''"
    and c: "op_composite op = Some c"
  shows
   "(composite_name c = ''odml.update_kv_cache'' \<or>
     composite_name c = ''odml.scaled_dot_product_attention'' \<longrightarrow>
     custom_option_buffer E op (composite_attributes c) (diagnostics st) = Inr (payload, ds1) \<longrightarrow>
       (\<exists>st'. legalize_op E i st = Inr st' \<and>
          op_attrs (body st' ! i) =
            [(''custom_code'', StringAttr (composite_name c)),
             (''custom_option'', ConstBytesAttr payload)] \<and>
          diagnostics st' = ds1)) \<and>
    (composite_name c \<noteq> ''odml.update_kv_cache'' \<and>
     composite_name c \<noteq> ''odml.scaled_dot_product_attention'' \<longrightarrow>
     custom_option_buffer E op (op_attrs op)
       (diagnostics st @
        [Warning (op_loc op) (''composite has no specializaiton '' @ composite_name c)]) =
       Inr (payload, ds1) \<longrightarrow>
       (\<exists>st'. legalize_op E i st = Inr st' \<and>
          op_attrs (body st' ! i) =
            [(''custom_code'', StringAttr (op_name op)),
             (''custom_option'', ConstBytesAttr payload)] \<and>
          diagnostics st' = ds1 \<and>
          (\<exists>new. ds1 =
             diagnostics st @
             Warning (op_loc op) (''composite has no specializaiton '' @ composite_name c) # new)))"
proof (intro conjI impI)
  assume listed: "composite_name c = ''odml.update_kv_cache'' \<or>
     composite_name c = ''odml.scaled_dot_product_attention''"
    and b: "custom_option_buffer E op (composite_attributes c) (diagnostics st) = Inr (payload, ds1)"
  from listed c have n: "custom_name_and_options op (diagnostics st) =
      (composite_name c, composite_attributes c, diagnostics st)"
    by (auto simp: custom_name_and_options_def IsSupportedComposite_def supported_composites_def)
  from legalize_op_rewrite [of i st "composite_name c" "composite_attributes c" "diagnostics st"
      E payload ds1] i op d n b
  show "\<exists>st'. legalize_op E i st = Inr st' \<and>
          op_attrs (body st' ! i) =
            [(''custom_code'', StringAttr (composite_name c)),
             (''custom_option'', ConstBytesAttr payload)] \<and>
          diagnostics st' = ds1"
    by (simp add: replaceAllUsesWith_def create_CustomOp_def)
next
  let ?w = "Warning (op_loc op) (''composite has no specializaiton '' @ composite_name c)"
  assume unlisted: "composite_name c \<noteq> ''odml.update_kv_cache'' \<and>
     composite_name c \<noteq> ''odml.scaled_dot_product_attention''"
    and b: "custom_option_buffer E op (op_attrs op) (diagnostics st @ [?w]) = Inr (payload, ds1)"
  from unlisted c have n: "custom_name_and_options op (diagnostics st) =
      (op_name op, op_attrs op, diagnostics st @ [?w])"
    by (auto simp: custom_name_and_options_def IsSupportedComposite_def supported_composites_def
        emitWarning_def)
  from custom_option_buffer_diags [OF b] have "\<exists>new. ds1 = diagnostics st @ ?w # new"
    by auto
  with legalize_op_rewrite [of i st "op_name op" "op_attrs op" "diagnostics st @ [?w]"
      E payload ds1] i op d n b
  show "\<exists>st'. legalize_op E i st = Inr st' \<and>
          op_attrs (body st' ! i) =
            [(''custom_code'', StringAttr (op_name op)),
             (''custom_option'', ConstBytesAttr payload)] \<and>
          diagnostics st' = ds1 \<and>
          (\<exists>new. ds1 = diagnostics st @ ?w # new)"
    by (simp add: replaceAllUsesWith_def create_CustomOp_def)
qed

text \<open>The composite unit with an allow-listed inner name and with another one.\<close>

theorem composite_allow_list_witness:
  "(\<exists>st'. legalize_op example_enums 0 (example_composite_unit ''odml.update_kv_cache'') = Inr st' \<and>
      op_attrs (body st' ! 0) =
        [(''custom_code'', StringAttr ''odml.update_kv_cache''),
         (''custom_option'', ConstBytesAttr (FMap [(''kv_cache_max'', FInt 500)]))] \<and>
      diagnostics st' = []) \<and>
   (\<exists>st'. legalize_op example_enums 0 (example_composite_unit ''odml.rms_norm'') = Inr st' \<and>
      op_attrs (body st' ! 0) =
        [(''custom_code'', StringAttr ''stablehlo.composite''),
         (''custom_option'', ConstBytesAttr (FMap [(''name'', FString ''odml.rms_norm'')]))] \<and>
      diagnostics st' =
        [Warning ''loc0'' ''composite has no specializaiton odml.rms_norm'',
         Warning ''loc0'' ''serialization not supported for : composite_attributes'',
         Warning ''loc0'' ''serialization not supported for : decomposition''])"
proof -
  let ?kv = "example_composite_unit ''odml.update_kv_cache''"
  let ?rms = "example_composite_unit ''odml.rms_norm''"
  let ?c = "\<lambda>inner. \<lparr>composite_name = inner,
                  composite_attributes = [(''kv_cache_max'', IntegerAttr 500)]\<rparr>"
  have kv: "0 < length (body ?kv)" "op_dialect (body ?kv ! 0) = ''stablehlo''"
      "op_composite (body ?kv ! 0) = Some (?c ''odml.update_kv_cache'')"
    by (simp_all add: example_composite_unit_def)
  have rms: "0 < length (body ?rms)" "op_dialect (body ?rms ! 0) = ''stablehlo''"
      "op_composite (body ?rms ! 0) = Some (?c ''odml.rms_norm'')"
    by (simp_all add: example_composite_unit_def)
  have b1: "custom_option_buffer example_enums (body ?kv ! 0)
      (composite_attributes (?c ''odml.update_kv_cache'')) (diagnostics ?kv) =
      Inr (FMap [(''kv_cache_max'', FInt 500)], [])"
    by (simp add: custom_option_buffer_encoded encoded_map_def example_composite_unit_def)
  have b2: "custom_option_buffer example_enums (body ?rms ! 0) (op_attrs (body ?rms ! 0))
      (diagnostics ?rms @
       [Warning (op_loc (body ?rms ! 0))
          (''composite has no specializaiton '' @ composite_name (?c ''odml.rms_norm''))]) =
      Inr (FMap [(''name'', FString ''odml.rms_norm'')],
        [Warning ''loc0'' ''composite has no specializaiton odml.rms_norm'',
         Warning ''loc0'' ''serialization not supported for : composite_attributes'',
         Warning ''loc0'' ''serialization not supported for : decomposition''])"
    by (simp add: custom_option_buffer_encoded encoded_map_def example_composite_unit_def)
  from composite_allow_list [OF kv(1) refl kv(2,3), of example_enums
      "FMap [(''kv_cache_max'', FInt 500)]" "[]"] b1
  have 1: "\<exists>st'. legalize_op example_enums 0 ?kv = Inr st' \<and>
      op_attrs (body st' ! 0) =
        [(''custom_code'', StringAttr ''odml.update_kv_cache''),
         (''custom_option'', ConstBytesAttr (FMap [(''kv_cache_max'', FInt 500)]))] \<and>
      diagnostics st' = []"
    by simp
  from composite_allow_list [OF rms(1) refl rms(2,3), of example_enums
      "FMap [(''name'', FString ''odml.rms_norm'')]"
      "[Warning ''loc0'' ''composite has no specializaiton odml.rms_norm'',
         Warning ''loc0'' ''serialization not supported for : composite_attributes'',
         Warning ''loc0'' ''serialization not supported for : decomposition'']"] b2
  have 2: "\<exists>st'. legalize_op example_enums 0 ?rms = Inr st' \<and>
      op_attrs (body st' ! 0) =
        [(''custom_code'', StringAttr ''stablehlo.composite''),
         (''custom_option'', ConstBytesAttr (FMap [(''name'', FString ''odml.rms_norm'')]))] \<and>
      diagnostics st' =
        [Warning ''loc0'' ''composite has no specializaiton odml.rms_norm'',
         Warning ''loc0'' ''serialization not supported for : composite_attributes'',
         Warning ''loc0'' ''serialization not supported for : decomposition'']"
    by (simp add: example_composite_unit_def)
  from 1 2 show ?thesis ..
qed

section \<open>Operations without attributes\<close>



section \<open>Further properties of the encoder and the pass\<close>

text \<open>
  A heterogeneous list whose elements are all strings or precision tags is encoded as one
  typed vector of strings under its key, one string per element in order, each precision
  tag by the name \<^verbatim>\<open>stringifyPrecision\<close> gives it, each string up to its first NUL byte; no
  diagnostic is emitted.
\<close>

theorem valid_list_stringified:
  assumes "list_all (\<lambda>a. isa_StringAttr a \<or> isa_PrecisionAttr a) xs"
  shows "BuildOption E op (key, ArrayAttr xs) (fbb, ds) =
     Inr (success,
          fbb\<lparr>stack := stack fbb @
             [FKey (c_str key), FVector True (map (\<lambda>a. FString (element_string E a)) xs)]\<rparr>,
          ds)"
proof -
  from assms have "stringifiable (ArrayAttr xs)" by simp
  from BuildOption_encoded [OF this] show ?thesis by (simp add: encoded_entry_def)
qed

theorem valid_list_stringified_witness:
  "BuildOption example_enums example_op
     (''precision_config'', ArrayAttr [PrecisionAttr DEFAULT, PrecisionAttr HIGHEST])
     (new_Builder, []) =
   Inr (success,
        \<lparr>stack = [FKey ''precision_config'', FVector True [FString ''DEFAULT'', FString ''HIGHEST'']],
         finished = False\<rparr>, [])"
proof -
  have h: "list_all (\<lambda>a. isa_StringAttr a \<or> isa_PrecisionAttr a)
      [PrecisionAttr DEFAULT, PrecisionAttr HIGHEST]" by simp
  from valid_list_stringified [OF h, of example_enums example_op "''precision_config''" new_Builder "[]"]
  show ?thesis by (simp add: new_Builder_def example_enums_def)
qed

text \<open>
  When no attribute is a list holding an element that is neither a string nor a precision
  tag, the options buffer is a map whose keys are exactly the keys of the attributes of a
  kind the encoder knows, in their original order; every attribute of another kind adds
  exactly one warning, and a tensor with an unsupported element type adds one.
\<close>

theorem unsupported_keys_skipped:
  assumes "list_all (\<lambda>pair. stringifiable (snd pair)) options"
  shows "\<exists>kvs. custom_option_buffer E op options ds =
             Inr (FMap kvs, ds @ concat (map (encoder_warnings op) options)) \<and>
           map fst kvs =
             map (\<lambda>pair. c_str (fst pair))
               (filter (\<lambda>pair. \<not> unsupported_kind (snd pair)) options)"
  using custom_option_buffer_encoded [OF assms] encoded_map_keys by blast

theorem unsupported_keys_skipped_witness:
  "\<exists>kvs. custom_option_buffer example_enums example_op
       [(''backend_config'', DictionaryAttr []),
        (''call_target_name'', StringAttr ''foo''),
        (''called_computations'', ArrayAttr []),
        (''has_side_effect'', IntegerAttr 0),
        (''unit'', UnitAttr)] [] =
       Inr (FMap kvs,
            [Warning ''loc0'' ''serialization not supported for : backend_config'',
             Warning ''loc0'' ''serialization not supported for : unit'']) \<and>
     map fst kvs = [''call_target_name'', ''called_computations'', ''has_side_effect'']"
proof -
  have h: "list_all (\<lambda>pair. stringifiable (snd pair))
       [(''backend_config'', DictionaryAttr []),
        (''call_target_name'', StringAttr ''foo''),
        (''called_computations'', ArrayAttr []),
        (''has_side_effect'', IntegerAttr 0),
        (''unit'', UnitAttr)]" by simp
  from unsupported_keys_skipped [OF h, of example_enums example_op "[]"]
  show ?thesis by (simp add: example_op_def)
qed

text \<open>
  Gather and scatter dimension numbers are encoded as one untyped vector of three nested
  integer arrays followed by the index vector dimension; dot dimension numbers as one
  untyped vector of four nested integer arrays; each in the order of the fields.
\<close>

theorem gather_scatter_dot_order:
  "BuildOption E op (key, GatherDimensionNumbersAttr g) (fbb, ds) =
     Inr (success,
          fbb\<lparr>stack := stack fbb @
            [FKey (c_str key),
             FVector False
               [FVector False (map FInt (OffsetDims g)),
                FVector False (map FInt (CollapsedSliceDims g)),
                FVector False (map FInt (StartIndexMap g)),
                FInt (GatherIndexVectorDim g)]]\<rparr>, ds) \<and>
   BuildOption E op (key, ScatterDimensionNumbersAttr s) (fbb, ds) =
     Inr (success,
          fbb\<lparr>stack := stack fbb @
            [FKey (c_str key),
             FVector False
               [FVector False (map FInt (UpdateWindowDims s)),
                FVector False (map FInt (InsertedWindowDims s)),
                FVector False (map FInt (ScatterDimsToOperandDims s)),
                FInt (ScatterIndexVectorDim s)]]\<rparr>, ds) \<and>
   BuildOption E op (key, DotDimensionNumbersAttr d) (fbb, ds) =
     Inr (success,
          fbb\<lparr>stack := stack fbb @
            [FKey (c_str key),
             FVector False
               [FVector False (map FInt (LhsBatchingDimensions d)),
                FVector False (map FInt (RhsBatchingDimensions d)),
                FVector False (map FInt (LhsContractingDimensions d)),
                FVector False (map FInt (RhsContractingDimensions d))]]\<rparr>, ds)"
  by (simp add: BuildOption_def Let_def StartVector_key_eq AddIntegerArray_eq Add_int_def push_def
      EndVector_def and_then_Inr)

text \<open>
  Integer and float scalars are encoded under their key as they are, a string scalar up
  to its first NUL byte; flat integer and boolean arrays as typed vectors of their
  values; the comparison direction and the comparison type as the string their stringify
  function gives.
\<close>

theorem scalars_keyed:
  "BuildOption E op (key, IntegerAttr i) (fbb, ds) =
     Inr (success, fbb\<lparr>stack := stack fbb @ [FKey (c_str key), FInt i]\<rparr>, ds) \<and>
   BuildOption E op (key, FloatAttr d) (fbb, ds) =
     Inr (success, fbb\<lparr>stack := stack fbb @ [FKey (c_str key), FDouble d]\<rparr>, ds) \<and>
   BuildOption E op (key, StringAttr s) (fbb, ds) =
     Inr (success, fbb\<lparr>stack := stack fbb @ [FKey (c_str key), FString (c_str s)]\<rparr>, ds) \<and>
   BuildOption E op (key, DenseI64ArrayAttr xs) (fbb, ds) =
     Inr (success, fbb\<lparr>stack := stack fbb @ [FKey (c_str key), FVector True (map FInt xs)]\<rparr>, ds) \<and>
   BuildOption E op (key, DenseBoolArrayAttr bs) (fbb, ds) =
     Inr (success, fbb\<lparr>stack := stack fbb @ [FKey (c_str key), FVector True (map FBool bs)]\<rparr>, ds) \<and>
   BuildOption E op (key, ComparisonDirectionAttr c) (fbb, ds) =
     Inr (success,
          fbb\<lparr>stack := stack fbb @ [FKey (c_str key), FString (stringifyComparisonDirection E c)]\<rparr>, ds) \<and>
   BuildOption E op (key, ComparisonTypeAttr t) (fbb, ds) =
     Inr (success,
          fbb\<lparr>stack := stack fbb @ [FKey (c_str key), FString (stringifyComparisonType E t)]\<rparr>, ds)"
  by (simp add: BuildOption_encoded encoded_entry_def)

text \<open>
  A string attribute with a NUL byte in it: the builder is given a \<^verbatim>\<open>const char*\<close> and
  keeps what comes before the NUL.
\<close>

theorem string_ends_at_nul:
  "BuildOption example_enums example_op
     (''k'', StringAttr [CHR ''a'', CHR 0x00, CHR ''b'']) (new_Builder, []) =
   Inr (success, \<lparr>stack = [FKey ''k'', FString ''a''], finished = False\<rparr>, [])"
  by (simp add: BuildOption_def Let_def String_key_def Key_def push_def new_Builder_def)

lemma legalize_op_dialects:
  assumes "legalize_op E i st = Inr st'" and "i < length (body st)"
  shows "length (body st') = length (body st) \<and>
     op_dialect (body st' ! i) \<noteq> ''stablehlo'' \<and>
     (\<forall>j<length (body st). j \<noteq> i \<longrightarrow> op_dialect (body st' ! j) = op_dialect (body st ! j))"
proof (cases "op_dialect (body st ! i) = ''stablehlo''")
  case False
  with assms show ?thesis by (simp add: legalize_op_skip)
next
  case True
  obtain name options ds where n:
    "custom_name_and_options (body st ! i) (diagnostics st) = (name, options, ds)"
    by (cases "custom_name_and_options (body st ! i) (diagnostics st)")
  from assms(1) True n obtain buffer ds1 where
    b: "custom_option_buffer E (body st ! i) options ds = Inr (buffer, ds1)"
    by (auto simp: legalize_op_def Let_def and_then_def split: sum.splits)
  from legalize_op_rewrite [OF assms(2) True n b] assms
  show ?thesis
    by (auto simp: replaceAllUsesWith_def create_CustomOp_def)
qed

lemma walk_dialects:
  assumes "walk E is st = Inr st'" and "\<forall>i\<in>set is. i < length (body st)"
  shows "length (body st') = length (body st) \<and>
     (\<forall>i\<in>set is. op_dialect (body st' ! i) \<noteq> ''stablehlo'') \<and>
     (\<forall>j<length (body st). j \<notin> set is \<longrightarrow> op_dialect (body st' ! j) = op_dialect (body st ! j))"
  using assms
proof (induction "is" arbitrary: st)
  case Nil
  then show ?case by simp
next
  case (Cons i "is")
  from Cons.prems(1) obtain st1 where
    one: "legalize_op E i st = Inr st1" and rest: "walk E is st1 = Inr st'"
    by (auto split: sum.splits)
  from Cons.prems(2) have i: "i < length (body st)" by simp
  note d = legalize_op_dialects [OF one i]
  from Cons.prems(2) d have "\<forall>i\<in>set is. i < length (body st1)" by simp
  note ih = Cons.IH [OF rest this]
  show ?case
  proof (intro conjI ballI allI impI)
    show "length (body st') = length (body st)" using ih d by simp
  next
    fix k assume "k \<in> set (i # is)"
    then show "op_dialect (body st' ! k) \<noteq> ''stablehlo''"
      using ih d i by (cases "k \<in> set is") auto
  next
    fix j assume "j < length (body st)" "j \<notin> set (i # is)"
    then show "op_dialect (body st' ! j) = op_dialect (body st ! j)"
      using ih d by auto
  qed
qed

text \<open>
  Whenever the pass returns, the unit has as many operations as before and none of them
  is of the StableHLO dialect.
\<close>

theorem pass_leaves_no_stablehlo:
  assumes "runOnOperation E fn = Inr fn'"
  shows "length (body fn') = length (body fn) \<and>
     (\<forall>op\<in>set (body fn'). op_dialect op \<noteq> ''stablehlo'')"
proof -
  from assms have w: "walk E [0..<length (body fn)] fn = Inr fn'"
    by (simp add: runOnOperation_def)
  have "\<forall>i\<in>set [0..<length (body fn)]. i < length (body fn)" by simp
  from walk_dialects [OF w this] show ?thesis
    by (auto simp: in_set_conv_nth)
qed

theorem pass_leaves_no_stablehlo_witness:
  "runOnOperation example_enums example_unit =
     Inr \<lparr>body =
        [\<lparr>op_id = 0, op_dialect = ''arith'', op_name = ''arith.constant'', op_attrs = [],
          op_operands = [], op_result_types = [''tensor<2xf32>''], op_loc = ''loc0'',
          op_composite = None\<rparr>,
         \<lparr>op_id = 3, op_dialect = ''tfl'', op_name = ''tfl.custom'',
          op_attrs = [(''custom_code'', StringAttr ''stablehlo.add''),
                      (''custom_option'',
                       ConstBytesAttr (FMap [(''axis'', FInt 1), (''scale'', FDouble 0x4004000000000000)]))],
          op_operands = [OpResult 0 0, BlockArgument 0], op_result_types = [''tensor<2xf32>''],
          op_loc = ''loc1'', op_composite = None\<rparr>,
         \<lparr>op_id = 2, op_dialect = ''func'', op_name = ''func.return'', op_attrs = [],
          op_operands = [OpResult 3 0], op_result_types = [], op_loc = ''loc2'',
          op_composite = None\<rparr>],
      diagnostics = [], next_id = 4\<rparr> \<and>
   length (body example_unit) = 3"
proof -
  have b: "custom_option_buffer example_enums op
      [(''axis'', IntegerAttr 1), (''scale'', FloatAttr 0x4004000000000000)] [] =
      Inr (FMap [(''axis'', FInt 1), (''scale'', FDouble 0x4004000000000000)], [])" for op
    by (simp add: custom_option_buffer_encoded encoded_map_def)
  have run: "runOnOperation example_enums example_unit =
     Inr \<lparr>body =
        [\<lparr>op_id = 0, op_dialect = ''arith'', op_name = ''arith.constant'', op_attrs = [],
          op_operands = [], op_result_types = [''tensor<2xf32>''], op_loc = ''loc0'',
          op_composite = None\<rparr>,
         \<lparr>op_id = 3, op_dialect = ''tfl'', op_name = ''tfl.custom'',
          op_attrs = [(''custom_code'', StringAttr ''stablehlo.add''),
                      (''custom_option'',
                       ConstBytesAttr (FMap [(''axis'', FInt 1), (''scale'', FDouble 0x4004000000000000)]))],
          op_operands = [OpResult 0 0, BlockArgument 0], op_result_types = [''tensor<2xf32>''],
          op_loc = ''loc1'', op_composite = None\<rparr>,
         \<lparr>op_id = 2, op_dialect = ''func'', op_name = ''func.return'', op_attrs = [],
          op_operands = [OpResult 3 0], op_result_types = [], op_loc = ''loc2'',
          op_composite = None\<rparr>],
      diagnostics = [], next_id = 4\<rparr>"
    by (simp add: runOnOperation_def example_unit_def upt_rec legalize_op_def
        custom_name_and_options_def b and_then_Inr insert_before_def replaceAllUsesWith_def
        erase_def create_CustomOp_def CustomOption_def)
  from pass_leaves_no_stablehlo [OF run] show ?thesis using run by simp
qed

lemma custom_name_and_options_encodable:
  assumes "encodable_op op"
    and "custom_name_and_options op ds0 = (name, options, ds)"
  shows "list_all (\<lambda>pair. stringifiable (snd pair)) options"
  using assms
  by (auto simp: custom_name_and_options_def encodable_op_def IsSupportedComposite_def
      split: option.splits if_splits)

lemma legalize_op_returns:
  assumes i: "i < length (body st)" and enc: "list_all encodable_op (body st)"
  shows "\<exists>st'. legalize_op E i st = Inr st' \<and> length (body st') = length (body st) \<and>
     list_all encodable_op (body st')"
proof (cases "op_dialect (body st ! i) = ''stablehlo''")
  case False
  with enc show ?thesis by (simp add: legalize_op_skip)
next
  case True
  let ?op = "body st ! i"
  obtain name options ds where n:
    "custom_name_and_options ?op (diagnostics st) = (name, options, ds)"
    by (cases "custom_name_and_options ?op (diagnostics st)")
  from enc i have "encodable_op ?op" by (simp add: list_all_length)
  from custom_name_and_options_encodable [OF this n]
  have b: "custom_option_buffer E ?op options ds =
      Inr (FMap (encoded_map E options), ds @ concat (map (encoder_warnings ?op) options))"
    by (rule custom_option_buffer_encoded)
  let ?custom = "create_CustomOp (next_id st) (op_loc ?op) (op_result_types ?op)
      (map (replace_use (op_id ?op) (next_id st)) (op_operands ?op)) name
      (ConstBytesAttr (FMap (encoded_map E options)))"
  let ?body = "(replaceAllUsesWith (op_id ?op) (next_id st) (body st))[i := ?custom]"
  have c: "encodable_op ?custom"
    by (simp add: encodable_op_def create_CustomOp_def)
  have "list_all encodable_op (replaceAllUsesWith (op_id ?op) (next_id st) (body st))"
    using enc by (simp add: replaceAllUsesWith_def list_all_iff encodable_op_def)
  with c have "list_all encodable_op ?body"
    using set_update_subset_insert [of "replaceAllUsesWith (op_id ?op) (next_id st) (body st)" i ?custom]
    by (auto simp: list_all_iff)
  moreover have "length ?body = length (body st)"
    by (simp add: replaceAllUsesWith_def)
  ultimately show ?thesis
    using legalize_op_rewrite [OF i True n b] by simp
qed

lemma walk_returns:
  assumes "\<forall>i\<in>set is. i < length (body st)" and "list_all encodable_op (body st)"
  shows "\<exists>st'. walk E is st = Inr st'"
  using assms
proof (induction "is" arbitrary: st)
  case Nil
  then show ?case by simp
next
  case (Cons i "is")
  from Cons.prems have i: "i < length (body st)" by simp
  from legalize_op_returns [OF i Cons.prems(2), of E] obtain st1 where
    one: "legalize_op E i st = Inr st1" and len: "length (body st1) = length (body st)"
    and enc: "list_all encodable_op (body st1)"
    by blast
  from Cons.prems(1) len have "\<forall>i\<in>set is. i < length (body st1)" by simp
  from Cons.IH [OF this enc] one show ?case by simp
qed

text \<open>
  On a unit whose operations all have attributes the encoder can stringify, the pass
  returns: it visits every position once, and the unit it returns has as many operations
  as before, none of them of the StableHLO dialect.
\<close>

theorem pass_returns:
  assumes "list_all encodable_op (body fn)"
  shows "\<exists>fn'. runOnOperation E fn = Inr fn' \<and> length (body fn') = length (body fn) \<and>
     list_all (\<lambda>op. op_dialect op \<noteq> ''stablehlo'') (body fn')"
proof -
  have "\<forall>i\<in>set [0..<length (body fn)]. i < length (body fn)" by simp
  from walk_returns [OF this assms, of E] obtain fn' where
    w: "walk E [0..<length (body fn)] fn = Inr fn'" ..
  have "\<forall>i\<in>set [0..<length (body fn)]. i < length (body fn)" by simp
  from walk_dialects [OF w this] have "length (body fn') = length (body fn)"
    and "list_all (\<lambda>op. op_dialect op \<noteq> ''stablehlo'') (body fn')"
    by (auto simp: list_all_length)
  with w show ?thesis by (auto simp: runOnOperation_def)
qed

theorem pass_returns_witness:
  "\<exists>fn'. runOnOperation example_enums example_unit = Inr fn' \<and>
     length (body fn') = length (body example_unit) \<and>
     list_all (\<lambda>op. op_dialect op \<noteq> ''stablehlo'') (body fn')"
proof -
  have "list_all encodable_op (body example_unit)"
    by (simp add: example_unit_def encodable_op_def)
  from pass_returns [OF this, of example_enums] show ?thesis .
qed

end
